theory Spec2Isabelle
  imports Main "HOL-Library.Log_Nat"
begin

section \<open>Numbers: Python ints, binary floats, int32 array cells\<close>

text \<open>
  Python integers are modelled by \<open>int\<close>. A binary64 value is modelled by the rational
  number it denotes. \<open>round_f64\<close> is rounding to the nearest binary64 value, ties to
  even: 53 significant bits, exponent clipped below at the subnormal range. It has no
  upper exponent limit, so it is the IEEE operation for every result of magnitude below
  \<open>2 ^ 1024\<close>; the operands met here (int32 cells, image dimensions) stay far below.
  \<open>round_f32\<close> is the same for binary32 (24 significant bits), the type of the
  network's output tensor and of the points \<open>cv2.contourArea\<close> computes with.
\<close>

definition pow2 :: "int \<Rightarrow> rat" where
  "pow2 k = (if 0 \<le> k then 2 ^ nat k else 1 / 2 ^ nat (- k))"

definition round_half_even :: "rat \<Rightarrow> int" where
  "round_half_even q =
     (let f = \<lfloor>q\<rfloor>; d = q - of_int f
      in if d < 1 / 2 then f
         else if 1 / 2 < d then f + 1
         else if even f then f else f + 1)"

definition f64_exponent :: "rat \<Rightarrow> int" where
  \<comment> \<open>the integer \<open>e\<close> with \<open>2 ^ e \<le> \<bar>q\<bar> < 2 ^ (e + 1)\<close>, for \<open>q \<noteq> 0\<close>\<close>
  "f64_exponent q =
     (let (n, d) = quotient_of \<bar>q\<bar>; k = bitlen n - bitlen d
      in if pow2 k \<le> \<bar>q\<bar> then k else k - 1)"

definition round_f64 :: "rat \<Rightarrow> rat" where
  "round_f64 q =
     (if q = 0 then 0
      else let e = max (f64_exponent q) (- 1022); u = pow2 (e - 52)
           in of_int (round_half_even (q / u)) * u)"

definition round_f32 :: "rat \<Rightarrow> rat" where
  "round_f32 q =
     (if q = 0 then 0
      else let e = max (f64_exponent q) (- 126); u = pow2 (e - 23)
           in of_int (round_half_even (q / u)) * u)"

datatype error =
    Exception string
  | ZeroDivisionError
  | IndexError
  | KeyError
  | ValueError
  | AttributeError
  | External string

definition true_div :: "int \<Rightarrow> int \<Rightarrow> error + rat" where
  \<comment> \<open>Python's \<open>a / b\<close> on two ints: the correctly rounded quotient\<close>
  "true_div a b = (if b = 0 then Inl ZeroDivisionError else Inr (round_f64 (of_int a / of_int b)))"

definition f64_mul :: "rat \<Rightarrow> rat \<Rightarrow> rat" where
  "f64_mul a b = round_f64 (a * b)"

definition trunc_rat :: "rat \<Rightarrow> int" where
  "trunc_rat q = (if 0 \<le> q then \<lfloor>q\<rfloor> else \<lceil>q\<rceil>)"

definition is_int32 :: "int \<Rightarrow> bool" where
  "is_int32 x \<longleftrightarrow> - (2 ^ 31) \<le> x \<and> x < 2 ^ 31"

definition wrap_i32 :: "int \<Rightarrow> int" where
  \<comment> \<open>the result of C \<open>int\<close> arithmetic: the value reduced to 32 bits, two's complement\<close>
  "wrap_i32 x = (x + 2 ^ 31) mod 2 ^ 32 - 2 ^ 31"

definition f64_to_i32 :: "rat \<Rightarrow> int" where
  \<comment> \<open>Storing a float into an int32 array cell: the C conversion truncates toward zero.
      Out of range the conversion is undefined in C; the value written here is the one
      x86-64 produces.\<close>
  "f64_to_i32 q = (let t = trunc_rat q in if is_int32 t then t else - (2 ^ 31))"

section \<open>Contours and the OpenCV primitives\<close>

text \<open>
  A contour is the \<open>(N, 1, 2)\<close> int32 array that \<open>cv2.findContours\<close> returns: a sequence
  of points \<open>(x, y)\<close>. The three OpenCV functions the predictor calls are library code.
  \<open>cv2.boundingRect\<close> and \<open>cv2.contourArea\<close> are written out below as OpenCV defines
  them on integer point sets, with their own arithmetic: the width and height of the
  rectangle are C ints, which wrap; the area is summed in binary64 over the points
  converted to binary32. \<open>cv2.findContours\<close> is a parameter of every function that
  calls it.
\<close>

type_synonym point = "int \<times> int"
type_synonym contour = "point list"
type_synonym bbox = "int \<times> int \<times> int \<times> int"

fun rect_loop :: "contour \<Rightarrow> bbox \<Rightarrow> bbox" where
  "rect_loop [] r = r"
| "rect_loop ((x, y) # ps) (xmin, ymin, xmax, ymax) =
     rect_loop ps (min xmin x, min ymin y, max xmax x, max ymax y)"

definition cv_boundingRect :: "contour \<Rightarrow> int \<times> int \<times> int \<times> int" where
  \<comment> \<open>\<open>cv2.boundingRect\<close>: \<open>(x, y, w, h)\<close>; the empty point set gives the empty rectangle\<close>
  "cv_boundingRect c =
     (case c of
        [] \<Rightarrow> (0, 0, 0, 0)
      | (x0, y0) # ps \<Rightarrow>
          (case rect_loop ps (x0, y0, x0, y0) of
             (xmin, ymin, xmax, ymax) \<Rightarrow>
               (xmin, ymin, wrap_i32 (xmax - xmin + 1), wrap_i32 (ymax - ymin + 1))))"

definition point2f :: "point \<Rightarrow> rat \<times> rat" where
  \<comment> \<open>\<open>Point2f((float)pt.x, (float)pt.y)\<close>\<close>
  "point2f pt = (round_f32 (of_int (fst pt)), round_f32 (of_int (snd pt)))"

fun area_loop :: "contour \<Rightarrow> rat \<times> rat \<Rightarrow> rat \<Rightarrow> rat" where
  "area_loop [] prev a00 = a00"
| "area_loop (pt # pts) prev a00 =
     (let p = point2f pt
      in area_loop pts p
           (round_f64 (a00 + round_f64 (round_f64 (fst prev * snd p)
                                          - round_f64 (snd prev * fst p)))))"

definition cv_contourArea :: "contour \<Rightarrow> rat" where
  \<comment> \<open>\<open>cv2.contourArea\<close>, not oriented: the absolute value of the shoelace sum, halved\<close>
  "cv_contourArea c =
     (if c = [] then 0 else \<bar>round_f64 (area_loop c (point2f (last c)) 0 * (1 / 2))\<bar>)"

section \<open>\<open>segm/predictor.py\<close>: the geometry functions\<close>

definition contour2bbox :: "contour \<Rightarrow> bbox" where
  "contour2bbox c = (case cv_boundingRect c of (x, y, w, h) \<Rightarrow> (x, y, x + w, y + h))"

type_synonym prob_map = "rat list list"
type_synonym polygon = "int list list"

definition mask_preprocess :: "prob_map \<Rightarrow> rat \<Rightarrow> bool list list" where
  \<comment> \<open>\<open>pred > threshold\<close>: \<open>pred\<close> is a binary32 tensor and \<open>threshold\<close> a Python
      float, which the comparison converts to binary32\<close>
  "mask_preprocess pred threshold = map (map (\<lambda>p. round_f32 threshold < p)) pred"

definition astype_uint8 :: "bool list list \<Rightarrow> nat list list" where
  "astype_uint8 mask_b = map (map of_bool) mask_b"

fun area_filter_loop :: "contour list \<Rightarrow> rat \<Rightarrow> contour list \<Rightarrow> contour list" where
  "area_filter_loop [] min_area contour_list = contour_list"
| "area_filter_loop (contour # contours) min_area contour_list =
     area_filter_loop contours min_area
       (if min_area \<le> cv_contourArea contour then contour_list @ [contour] else contour_list)"

definition get_contours_from_mask ::
  "(nat list list \<Rightarrow> contour list) \<Rightarrow> bool list list \<Rightarrow> rat \<Rightarrow> contour list" where
  \<comment> \<open>\<open>findContours\<close> stands for \<open>cv2.findContours\<close> with \<open>RETR_LIST\<close> and
      \<open>CHAIN_APPROX_SIMPLE\<close>, of which only the contours are used\<close>
  "get_contours_from_mask findContours mask_b min_area =
     area_filter_loop (findContours (astype_uint8 mask_b)) min_area []"

definition rescale_point :: "rat \<times> rat \<Rightarrow> point \<Rightarrow> point" where
  \<comment> \<open>\<open>contour[:, :, i] = contour[:, :, i] * scale[i]\<close> at one point: the product is a
      float64, the cell it is stored in is an int32\<close>
  "rescale_point scale p =
     (f64_to_i32 (f64_mul (of_int (fst p)) (fst scale)),
      f64_to_i32 (f64_mul (of_int (snd p)) (snd scale)))"

definition rescale_contours ::
  "contour list \<Rightarrow> int \<Rightarrow> int \<Rightarrow> int \<Rightarrow> int \<Rightarrow> error + contour list" where
  "rescale_contours contours pred_height pred_width image_height image_width =
     (case true_div image_height pred_height of
        Inl e \<Rightarrow> Inl e
      | Inr y_ratio \<Rightarrow>
          (case true_div image_width pred_width of
             Inl e \<Rightarrow> Inl e
           | Inr x_ratio \<Rightarrow> Inr (map (map (rescale_point (x_ratio, y_ratio))) contours)))"

definition reduce_contours_dims :: "contour list \<Rightarrow> polygon list" where
  "reduce_contours_dims contours = map (map (\<lambda>i. [fst i, snd i])) contours"

record class_params =
  threshold :: rat
  min_area :: rat

definition get_contours_from_predictions ::
  "(nat list list \<Rightarrow> contour list) \<Rightarrow> prob_map \<Rightarrow> class_params \<Rightarrow> int \<Rightarrow> int \<Rightarrow> int \<Rightarrow> int
     \<Rightarrow> error + (polygon list \<times> bbox list)" where
  "get_contours_from_predictions findContours pred params pred_height pred_width
       image_height image_width =
     (let pred' = mask_preprocess pred (threshold params);
          contours = get_contours_from_mask findContours pred' (min_area params)
      in case rescale_contours contours pred_height pred_width image_height image_width of
           Inl e \<Rightarrow> Inl e
         | Inr contours' \<Rightarrow> Inr (reduce_contours_dims contours', map contour2bbox contours'))"

section \<open>\<open>segm/predictor.py\<close>: \<open>SegmPredictor\<close>\<close>

text \<open>
  What the entrypoint can be handed: an array, a list, a tuple, or an object of any other
  class (named by its class). The transform and the network are collaborators outside the
  repository's sources: fields of the predictor, each returning its output or the message
  of the exception it raised.
\<close>

record ndarray =
  shape :: "nat list"
  data :: "nat list"

datatype pyobj =
    NdArray ndarray
  | PyList "pyobj list"
  | PyTuple "pyobj list"
  | PyOther string

record image_info =
  height :: nat
  width :: nat

record prediction =
  polygon :: polygon
  bbox :: bbox
  class_name :: string

record image_prediction =
  image_hw :: image_info
  predictions :: "prediction list"

datatype pred_data = One image_prediction | Many "image_prediction list"

record 't SegmPredictor =
  cls2params :: "(string \<times> class_params) list"
  config_height :: int
  config_width :: int
  transforms :: "pyobj list \<Rightarrow> string + 't"
  model :: "'t \<Rightarrow> string + prob_map list list"

definition type_repr :: "string \<Rightarrow> string" where
  \<comment> \<open>how an f-string prints the class named \<open>n\<close>\<close>
  "type_repr n = ''<class '' @ [CHR 0x27] @ n @ [CHR 0x27] @ ''>''"

definition input_kind_message :: "string \<Rightarrow> string" where
  "input_kind_message n =
     ''Input must contain np.ndarray, tuple or list, found '' @ type_repr n @ ''.''"

definition image_shape2 :: "pyobj \<Rightarrow> error + (nat \<times> nat)" where
  \<comment> \<open>\<open>img_h, img_w = image.shape[:2]\<close>\<close>
  "image_shape2 img =
     (case img of
        NdArray a \<Rightarrow> (case take 2 (shape a) of [h, w] \<Rightarrow> Inr (h, w) | _ \<Rightarrow> Inl ValueError)
      | _ \<Rightarrow> Inl AttributeError)"

fun append_records :: "string \<Rightarrow> (polygon \<times> bbox) list \<Rightarrow> prediction list \<Rightarrow> prediction list" where
  "append_records cls_name [] acc = acc"
| "append_records cls_name ((contour, b) # rest) acc =
     append_records cls_name rest
       (acc @ [\<lparr>polygon = contour, bbox = b, class_name = cls_name\<rparr>])"

fun class_loop ::
  "(nat list list \<Rightarrow> contour list) \<Rightarrow> 't SegmPredictor \<Rightarrow> prob_map list \<Rightarrow> nat \<Rightarrow> nat
     \<Rightarrow> (nat \<times> string) list \<Rightarrow> prediction list \<Rightarrow> error + prediction list" where
  "class_loop findContours self pred img_h img_w [] acc = Inr acc"
| "class_loop findContours self pred img_h img_w ((cls_idx, cls_name) # rest) acc =
     (if length pred \<le> cls_idx then Inl IndexError
      else case map_of (cls2params self) cls_name of
             None \<Rightarrow> Inl KeyError
           | Some params \<Rightarrow>
               (case get_contours_from_predictions findContours (pred ! cls_idx) params
                       (config_height self) (config_width self) (int img_h) (int img_w) of
                  Inl e \<Rightarrow> Inl e
                | Inr (contours, bboxes) \<Rightarrow>
                    class_loop findContours self pred img_h img_w rest
                      (append_records cls_name (zip contours bboxes) acc)))"

fun image_loop ::
  "(nat list list \<Rightarrow> contour list) \<Rightarrow> 't SegmPredictor \<Rightarrow> (pyobj \<times> prob_map list) list
     \<Rightarrow> image_prediction list \<Rightarrow> error + image_prediction list" where
  "image_loop findContours self [] pred_data = Inr pred_data"
| "image_loop findContours self ((img, pred) # rest) pred_data =
     (case image_shape2 img of
        Inl e \<Rightarrow> Inl e
      | Inr (img_h, img_w) \<Rightarrow>
          (case class_loop findContours self pred img_h img_w
                  (enumerate 0 (map fst (cls2params self))) [] of
             Inl e \<Rightarrow> Inl e
           | Inr preds \<Rightarrow>
               image_loop findContours self rest
                 (pred_data @ [\<lparr>image_hw = \<lparr>height = img_h, width = img_w\<rparr>,
                                predictions = preds\<rparr>])))"

text \<open>
  One iteration of each loop, as a function: what the class loop appends for one class,
  and the record the image loop appends for one image.
\<close>

definition class_records ::
  "(nat list list \<Rightarrow> contour list) \<Rightarrow> 't SegmPredictor \<Rightarrow> prob_map list \<Rightarrow> nat \<Rightarrow> nat
     \<Rightarrow> nat \<Rightarrow> string \<Rightarrow> error + prediction list" where
  "class_records findContours self pred img_h img_w cls_idx cls_name =
     (if length pred \<le> cls_idx then Inl IndexError
      else case map_of (cls2params self) cls_name of
             None \<Rightarrow> Inl KeyError
           | Some params \<Rightarrow>
               (case get_contours_from_predictions findContours (pred ! cls_idx) params
                       (config_height self) (config_width self) (int img_h) (int img_w) of
                  Inl e \<Rightarrow> Inl e
                | Inr (contours, bboxes) \<Rightarrow>
                    Inr (map (\<lambda>(c, b). \<lparr>polygon = c, bbox = b, class_name = cls_name\<rparr>)
                           (zip contours bboxes))))"

definition image_record ::
  "(nat list list \<Rightarrow> contour list) \<Rightarrow> 't SegmPredictor \<Rightarrow> pyobj \<Rightarrow> prob_map list
     \<Rightarrow> error + image_prediction" where
  "image_record findContours self img pred =
     (case image_shape2 img of
        Inl e \<Rightarrow> Inl e
      | Inr (img_h, img_w) \<Rightarrow>
          (case class_loop findContours self pred img_h img_w
                  (enumerate 0 (map fst (cls2params self))) [] of
             Inl e \<Rightarrow> Inl e
           | Inr preds \<Rightarrow>
               Inr \<lparr>image_hw = \<lparr>height = img_h, width = img_w\<rparr>, predictions = preds\<rparr>))"

definition predict :: "'t SegmPredictor \<Rightarrow> 't \<Rightarrow> string + prob_map list list" where
  "predict self images = model self images"

definition run_images ::
  "(nat list list \<Rightarrow> contour list) \<Rightarrow> 't SegmPredictor \<Rightarrow> pyobj list \<Rightarrow> bool
     \<Rightarrow> error + pred_data" where
  \<comment> \<open>the body of \<open>__call__\<close> after the input has been classified\<close>
  "run_images findContours self images one_image =
     (case transforms self images of
        Inl m \<Rightarrow> Inl (External m)
      | Inr transformed_images \<Rightarrow>
          (case predict self transformed_images of
             Inl m \<Rightarrow> Inl (External m)
           | Inr preds \<Rightarrow>
               (case image_loop findContours self (zip images preds) [] of
                  Inl e \<Rightarrow> Inl e
                | Inr pred_data \<Rightarrow>
                    if one_image
                    then (case pred_data of [] \<Rightarrow> Inl IndexError | p # _ \<Rightarrow> Inr (One p))
                    else Inr (Many pred_data))))"

definition SegmPredictor_call ::
  "(nat list list \<Rightarrow> contour list) \<Rightarrow> 't SegmPredictor \<Rightarrow> pyobj \<Rightarrow> error + pred_data" where
  "SegmPredictor_call findContours self images =
     (case images of
        PyList xs \<Rightarrow> run_images findContours self xs False
      | PyTuple xs \<Rightarrow> run_images findContours self xs False
      | NdArray a \<Rightarrow> run_images findContours self [NdArray a] True
      | PyOther n \<Rightarrow> Inl (Exception (input_kind_message n)))"

section \<open>The specification's reading of the geometry, and sample data\<close>

definition spec_bbox :: "('a::linordered_idom \<times> 'a) list \<Rightarrow> 'a \<times> 'a \<times> 'a \<times> 'a" where
  \<comment> \<open>The specification's bounding box, in its own words: \<open>x_min = min(x)\<close>,
      \<open>y_min = min(y)\<close>, \<open>x_max = x_min + width\<close>, \<open>y_max = y_min + height\<close>, with the
      tight enclosing extents \<open>width = max(x) - min(x)\<close>, \<open>height = max(y) - min(y)\<close>.\<close>
  "spec_bbox c =
     (let x_min = Min (fst ` set c); y_min = Min (snd ` set c);
          w = Max (fst ` set c) - x_min; h = Max (snd ` set c) - y_min
      in (x_min, y_min, x_min + w, y_min + h))"

definition spec_rescale ::
  "contour list \<Rightarrow> int \<Rightarrow> int \<Rightarrow> int \<Rightarrow> int \<Rightarrow> (rat \<times> rat) list list" where
  \<comment> \<open>The specification's rescaler, in its own words: \<open>x_scale = img_w / pred_w\<close>,
      \<open>y_scale = img_h / pred_h\<close>, \<open>x' = x * x_scale\<close>, \<open>y' = y * y_scale\<close>, no rounding
      to integer; the arithmetic is the float arithmetic of the code.\<close>
  "spec_rescale contours pred_h pred_w img_h img_w =
     (let x_scale = round_f64 (of_int img_w / of_int pred_w);
          y_scale = round_f64 (of_int img_h / of_int pred_h)
      in map (map (\<lambda>p. (f64_mul (of_int (fst p)) x_scale, f64_mul (of_int (snd p)) y_scale)))
           contours)"

definition bbox_as_rat :: "bbox \<Rightarrow> rat \<times> rat \<times> rat \<times> rat" where
  "bbox_as_rat b = (case b of (x0, y0, x1, y1) \<Rightarrow> (of_int x0, of_int y0, of_int x1, of_int y1))"

definition polygon_points :: "polygon \<Rightarrow> contour" where
  \<comment> \<open>the points \<open>(x, y)\<close> of a polygon given as a list of \<open>[x, y]\<close>\<close>
  "polygon_points poly = map (\<lambda>pt. (pt ! 0, pt ! 1)) poly"

definition is_ndarray :: "pyobj \<Rightarrow> bool" where
  "is_ndarray x = (case x of NdArray a \<Rightarrow> True | _ \<Rightarrow> False)"

definition spec_valid_input :: "pyobj \<Rightarrow> bool" where
  \<comment> \<open>The specification's valid inputs: one raw image, or a sequence of raw images.\<close>
  "spec_valid_input x =
     (case x of
        NdArray a \<Rightarrow> True
      | PyList xs \<Rightarrow> list_all is_ndarray xs
      | PyTuple xs \<Rightarrow> list_all is_ndarray xs
      | PyOther n \<Rightarrow> False)"

definition foreground_pixels :: "nat list list \<Rightarrow> nat" where
  \<comment> \<open>The area of the foreground of a mask as the specification's blob has it: the
      number of its pixels.\<close>
  "foreground_pixels m = sum_list (map sum_list m)"

definition int32_contour :: "contour \<Rightarrow> bool" where
  \<comment> \<open>every cell of the array holds an int32, as the array's dtype says\<close>
  "int32_contour c \<longleftrightarrow> list_all (\<lambda>p. is_int32 (fst p) \<and> is_int32 (snd p)) c"

definition square_contour :: contour where
  \<comment> \<open>the contour OpenCV traces around the pixels \<open>(1..2, 1..2)\<close>\<close>
  "square_contour = [(1, 1), (1, 2), (2, 2), (2, 1)]"

definition sample_prob :: prob_map where
  \<comment> \<open>a 4 x 4 probability map: a 2 x 2 block of 0.75 and, beside it, one cell of
      exactly 0.5\<close>
  "sample_prob = [[0, 0, 0, 0], [0, 3 / 4, 3 / 4, 1 / 2], [0, 3 / 4, 3 / 4, 0], [0, 0, 0, 0]]"

definition sample_mask :: "nat list list" where
  "sample_mask = [[0, 0, 0, 0], [0, 1, 1, 0], [0, 1, 1, 0], [0, 0, 0, 0]]"

definition sample_findContours :: "nat list list \<Rightarrow> contour list" where
  \<comment> \<open>what \<open>cv2.findContours\<close> returns on \<open>sample_mask\<close> and on a mask without foreground;
      used at no other mask\<close>
  "sample_findContours m = (if m = sample_mask then [square_contour] else [])"

definition sample_params :: class_params where
  "sample_params = \<lparr>threshold = 1 / 2, min_area = 1\<rparr>"

definition sample_image :: ndarray where
  "sample_image = \<lparr>shape = [6, 6, 3], data = replicate 108 0\<rparr>"

definition sample_transforms :: "pyobj list \<Rightarrow> string + pyobj list" where
  \<comment> \<open>a transform that raises on anything but arrays\<close>
  "sample_transforms xs = (if list_all is_ndarray xs then Inr xs else Inl ''not an image'')"

definition sample_model :: "pyobj list \<Rightarrow> string + prob_map list list" where
  \<comment> \<open>a one-channel network: the same map for every image of the batch\<close>
  "sample_model batch = Inr (map (\<lambda>x. [sample_prob]) batch)"

definition sample_predictor :: "pyobj list SegmPredictor" where
  "sample_predictor =
     \<lparr>cls2params = [(''text'', sample_params)], config_height = 4, config_width = 4,
      transforms = sample_transforms, model = sample_model\<rparr>"

definition sample_record :: image_prediction where
  "sample_record =
     \<lparr>image_hw = \<lparr>height = 6, width = 6\<rparr>,
      predictions = [\<lparr>polygon = [[1, 1], [1, 3], [3, 3], [3, 1]], bbox = (1, 1, 4, 4),
                      class_name = ''text''\<rparr>]\<rparr>"

definition zero_prob :: prob_map where
  "zero_prob = [[0, 0, 0, 0], [0, 0, 0, 0], [0, 0, 0, 0], [0, 0, 0, 0]]"

definition small_image :: ndarray where
  "small_image = \<lparr>shape = [4, 4, 3], data = replicate 48 0\<rparr>"

definition order_predictor :: "pyobj list SegmPredictor" where
  \<comment> \<open>two classes, configured in the order \<open>zz\<close>, \<open>aa\<close>\<close>
  "order_predictor =
     \<lparr>cls2params = [(''zz'', sample_params), (''aa'', sample_params)],
      config_height = 4, config_width = 4,
      transforms = sample_transforms, model = sample_model\<rparr>"

definition offline_transforms :: "pyobj list \<Rightarrow> string + pyobj list" where
  \<comment> \<open>a transform that always raises\<close>
  "offline_transforms xs = Inl ''offline''"

definition order_record_big :: image_prediction where
  "order_record_big =
     \<lparr>image_hw = \<lparr>height = 6, width = 6\<rparr>,
      predictions = [\<lparr>polygon = [[1, 1], [1, 3], [3, 3], [3, 1]], bbox = (1, 1, 4, 4),
                      class_name = ''zz''\<rparr>,
                     \<lparr>polygon = [[1, 1], [1, 3], [3, 3], [3, 1]], bbox = (1, 1, 4, 4),
                      class_name = ''aa''\<rparr>]\<rparr>"

definition order_record_small :: image_prediction where
  "order_record_small =
     \<lparr>image_hw = \<lparr>height = 4, width = 4\<rparr>,
      predictions = [\<lparr>polygon = [[1, 1], [1, 2], [2, 2], [2, 1]], bbox = (1, 1, 3, 3),
                      class_name = ''aa''\<rparr>]\<rparr>"

definition block_contour :: contour where
  \<comment> \<open>the contour OpenCV traces around the pixels \<open>(1..3, 1..3)\<close>\<close>
  "block_contour = [(1, 1), (1, 3), (3, 3), (3, 1)]"

definition block_prob :: prob_map where
  \<comment> \<open>a 5 x 5 probability map with a 3 x 3 block of 0.75\<close>
  "block_prob =
     [[0, 0, 0, 0, 0], [0, 3 / 4, 3 / 4, 3 / 4, 0], [0, 3 / 4, 3 / 4, 3 / 4, 0],
      [0, 3 / 4, 3 / 4, 3 / 4, 0], [0, 0, 0, 0, 0]]"

definition block_mask :: "nat list list" where
  "block_mask =
     [[0, 0, 0, 0, 0], [0, 1, 1, 1, 0], [0, 1, 1, 1, 0], [0, 1, 1, 1, 0], [0, 0, 0, 0, 0]]"

definition block_findContours :: "nat list list \<Rightarrow> contour list" where
  \<comment> \<open>what \<open>cv2.findContours\<close> returns on \<open>block_mask\<close> and on a mask without foreground;
      used at no other mask\<close>
  "block_findContours m = (if m = block_mask then [block_contour] else [])"

definition wide_contour :: contour where
  \<comment> \<open>an int32 contour whose x extent is \<open>2 ^ 31 - 1\<close>\<close>
  "wide_contour = [(0, 0), (2147483647, 5)]"

section \<open>Verified properties\<close>

subsection \<open>Bounding boxes\<close>

lemma rect_loop_eq:
  "rect_loop ps (xmin, ymin, xmax, ymax) =
     (Min (insert xmin (fst ` set ps)), Min (insert ymin (snd ` set ps)),
      Max (insert xmax (fst ` set ps)), Max (insert ymax (snd ` set ps)))"
proof (induction ps arbitrary: xmin ymin xmax ymax)
  case Nil
  then show ?case by simp
next
  case (Cons p ps)
  obtain x y where p: "p = (x, y)" by (cases p)
  have fin: "finite (fst ` set ps)" "finite (snd ` set ps)" by simp_all
  have a: "Min (insert (min xmin x) (fst ` set ps)) = Min (insert xmin (insert x (fst ` set ps)))"
    using fin(1) by (cases "fst ` set ps = {}") (simp_all add: min.assoc min.commute min.left_commute)
  have b: "Min (insert (min ymin y) (snd ` set ps)) = Min (insert ymin (insert y (snd ` set ps)))"
    using fin(2) by (cases "snd ` set ps = {}") (simp_all add: min.assoc min.commute min.left_commute)
  have c: "Max (insert (max xmax x) (fst ` set ps)) = Max (insert xmax (insert x (fst ` set ps)))"
    using fin(1) by (cases "fst ` set ps = {}") (simp_all add: max.assoc max.commute max.left_commute)
  have d: "Max (insert (max ymax y) (snd ` set ps)) = Max (insert ymax (insert y (snd ` set ps)))"
    using fin(2) by (cases "snd ` set ps = {}") (simp_all add: max.assoc max.commute max.left_commute)
  show ?case
    by (simp only: p rect_loop.simps Cons.IH a b c d list.set image_insert fst_conv snd_conv)
qed

lemma wrap_i32_id: "is_int32 x \<Longrightarrow> wrap_i32 x = x"
  by (simp add: wrap_i32_def is_int32_def)

lemma contour2bbox_eq:
  assumes "c \<noteq> []"
    and "Max (fst ` set c) - Min (fst ` set c) < 2 ^ 31 - 1"
    and "Max (snd ` set c) - Min (snd ` set c) < 2 ^ 31 - 1"
  shows "contour2bbox c =
           (Min (fst ` set c), Min (snd ` set c), Max (fst ` set c) + 1, Max (snd ` set c) + 1)"
proof -
  obtain x0 y0 ps where c: "c = (x0, y0) # ps" using assms(1) by (cases c) auto
  have fin: "finite (fst ` set c)" "finite (snd ` set c)" by simp_all
  have ne: "fst ` set c \<noteq> {}" "snd ` set c \<noteq> {}" using assms(1) by simp_all
  have "Min (fst ` set c) \<le> Max (fst ` set c)" by (rule Max_ge[OF fin(1) Min_in[OF fin(1) ne(1)]])
  with assms(2) have wx: "wrap_i32 (Max (fst ` set c) - Min (fst ` set c) + 1)
                            = Max (fst ` set c) - Min (fst ` set c) + 1"
    by (intro wrap_i32_id) (simp add: is_int32_def)
  have "Min (snd ` set c) \<le> Max (snd ` set c)" by (rule Max_ge[OF fin(2) Min_in[OF fin(2) ne(2)]])
  with assms(3) have wy: "wrap_i32 (Max (snd ` set c) - Min (snd ` set c) + 1)
                            = Max (snd ` set c) - Min (snd ` set c) + 1"
    by (intro wrap_i32_id) (simp add: is_int32_def)
  have "contour2bbox c =
          (Min (fst ` set c), Min (snd ` set c),
           Min (fst ` set c) + wrap_i32 (Max (fst ` set c) - Min (fst ` set c) + 1),
           Min (snd ` set c) + wrap_i32 (Max (snd ` set c) - Min (snd ` set c) + 1))"
    by (simp add: c contour2bbox_def cv_boundingRect_def rect_loop_eq)
  then show ?thesis by (simp only: wx wy) simp
qed

lemma square_contour_bbox: "contour2bbox square_contour = (1, 1, 3, 3)"
  by (simp add: square_contour_def contour2bbox_def cv_boundingRect_def wrap_i32_def)

lemma square_contour_extents:
  "Max (fst ` set square_contour) - Min (fst ` set square_contour) < 2 ^ 31 - 1"
  "Max (snd ` set square_contour) - Min (snd ` set square_contour) < 2 ^ 31 - 1"
  by (simp_all add: square_contour_def)

lemma wide_contour_bbox: "contour2bbox wide_contour = (0, 0, - 2147483648, 6)"
  by (simp add: wide_contour_def contour2bbox_def cv_boundingRect_def wrap_i32_def)

text \<open>
  Claim C2, as the code has it. For a non-empty contour whose extents \<open>max(x) - min(x)\<close>
  and \<open>max(y) - min(y)\<close> are below \<open>2 ^ 31 - 1\<close>, \<open>contour2bbox\<close> returns
  \<open>x_min = min(x)\<close>, \<open>y_min = min(y)\<close>, \<open>x_max = max(x) + 1\<close> and \<open>y_max = max(y) + 1\<close>:
  the width and height that \<open>cv2.boundingRect\<close> reports count the pixel columns and rows
  the contour touches, \<open>max - min + 1\<close>, so \<open>x_min + width\<close> is one past the largest
  coordinate. The bound on the extents keeps that count inside a C int.
\<close>

theorem contour2bbox_min_max_plus_one:
  "c \<noteq> [] \<Longrightarrow>
   Max (fst ` set c) - Min (fst ` set c) < 2 ^ 31 - 1 \<Longrightarrow>
   Max (snd ` set c) - Min (snd ` set c) < 2 ^ 31 - 1 \<Longrightarrow>
     contour2bbox c =
       (Min (fst ` set c), Min (snd ` set c), Max (fst ` set c) + 1, Max (snd ` set c) + 1)"
  by (rule contour2bbox_eq)

theorem contour2bbox_min_max_plus_one_witness:
  "square_contour \<noteq> [] \<and>
   Max (fst ` set square_contour) - Min (fst ` set square_contour) < 2 ^ 31 - 1 \<and>
   Max (snd ` set square_contour) - Min (snd ` set square_contour) < 2 ^ 31 - 1 \<and>
   contour2bbox square_contour = (1, 1, 2 + 1, 2 + 1) \<and>
   Min (fst ` set square_contour) = 1 \<and> Max (fst ` set square_contour) = 2 \<and>
   Min (snd ` set square_contour) = 1 \<and> Max (snd ` set square_contour) = 2"
proof -
  have ne: "square_contour \<noteq> []" by (simp add: square_contour_def)
  show ?thesis
    using ne square_contour_extents
      contour2bbox_min_max_plus_one [OF ne square_contour_extents]
    by (simp add: square_contour_def)
qed

text \<open>
  Claim C2 as the specification words it (\<open>x_max = max(x)\<close>, \<open>y_max = max(y)\<close>) fails
  already on a contour of one point: the code returns \<open>(0, 0, 1, 1)\<close>, the tight box is
  \<open>(0, 0, 0, 0)\<close>.
\<close>

theorem contour2bbox_tight_counterexample:
  "contour2bbox [(0, 0)] = (0, 0, 1, 1) \<and> spec_bbox [(0 :: int, 0 :: int)] = (0, 0, 0, 0) \<and>
   contour2bbox [(0, 0)] \<noteq> spec_bbox [(0, 0)]"
  by (simp add: contour2bbox_def cv_boundingRect_def spec_bbox_def wrap_i32_def)

text \<open>
  Claim C8, as the code has it. Every point of a non-empty contour whose extents
  \<open>max(x) - min(x)\<close> and \<open>max(y) - min(y)\<close> are below \<open>2 ^ 31 - 1\<close> lies inside the box
  returned for it, the four edges included, and the box satisfies \<open>x_min \<le> x_max\<close> and
  \<open>y_min \<le> y_max\<close>.
\<close>

theorem contour2bbox_contains:
  assumes "c \<noteq> []"
    and "Max (fst ` set c) - Min (fst ` set c) < 2 ^ 31 - 1"
    and "Max (snd ` set c) - Min (snd ` set c) < 2 ^ 31 - 1"
    and "contour2bbox c = (x_min, y_min, x_max, y_max)"
  shows "(\<forall>p \<in> set c. x_min \<le> fst p \<and> fst p \<le> x_max \<and> y_min \<le> snd p \<and> snd p \<le> y_max)
         \<and> x_min \<le> x_max \<and> y_min \<le> y_max"
proof -
  have fin: "finite (fst ` set c)" "finite (snd ` set c)" by simp_all
  from assms(4) contour2bbox_eq[OF assms(1,2,3)]
  have eqs: "x_min = Min (fst ` set c)" "y_min = Min (snd ` set c)"
    "x_max = Max (fst ` set c) + 1" "y_max = Max (snd ` set c) + 1"
    by simp_all
  have pts: "x_min \<le> fst p \<and> fst p \<le> x_max \<and> y_min \<le> snd p \<and> snd p \<le> y_max"
    if "p \<in> set c" for p
  proof -
    have "Min (fst ` set c) \<le> fst p" "fst p \<le> Max (fst ` set c)"
      "Min (snd ` set c) \<le> snd p" "snd p \<le> Max (snd ` set c)"
      using that fin by simp_all
    then show ?thesis unfolding eqs by linarith
  qed
  obtain p where p: "p \<in> set c" using assms(1) by (cases c) auto
  from pts[OF p] have "x_min \<le> x_max" "y_min \<le> y_max" by linarith+
  with pts show ?thesis by blast
qed

theorem contour2bbox_contains_witness:
  "square_contour \<noteq> [] \<and>
   Max (fst ` set square_contour) - Min (fst ` set square_contour) < 2 ^ 31 - 1 \<and>
   Max (snd ` set square_contour) - Min (snd ` set square_contour) < 2 ^ 31 - 1 \<and>
   contour2bbox square_contour = (1, 1, 3, 3) \<and>
   list_all (\<lambda>p. 1 \<le> fst p \<and> fst p \<le> 3 \<and> 1 \<le> snd p \<and> snd p \<le> 3) square_contour \<and>
   (1::int) \<le> 3"
proof -
  have ne: "square_contour \<noteq> []" by (simp add: square_contour_def)
  from contour2bbox_contains [OF ne square_contour_extents square_contour_bbox]
  have "list_all (\<lambda>p. 1 \<le> fst p \<and> fst p \<le> 3 \<and> 1 \<le> snd p \<and> snd p \<le> 3) square_contour"
    by (simp add: list_all_iff)
  with ne square_contour_extents square_contour_bbox show ?thesis by simp
qed

text \<open>
  Claim C8 as the specification words it, for every non-empty contour, fails where the
  width overflows the C int that \<open>cv2.boundingRect\<close> computes it in: for the int32
  contour \<open>(0, 0), (2147483647, 5)\<close> the width \<open>2 ^ 31\<close> wraps to \<open>- 2 ^ 31\<close>, the box
  returned is \<open>(0, 0, - 2147483648, 6)\<close>, its \<open>x_max\<close> lies below its \<open>x_min\<close> and the
  second point lies outside it.
\<close>

theorem contour2bbox_contains_counterexample:
  "wide_contour \<noteq> [] \<and> int32_contour wide_contour
   \<and> (2147483647, 5) \<in> set wide_contour
   \<and> contour2bbox wide_contour = (0, 0, - 2147483648, 6)
   \<and> \<not> (2147483647 :: int) \<le> - 2147483648 \<and> \<not> (0 :: int) \<le> - 2147483648"
  by (simp add: wide_contour_bbox) (simp add: wide_contour_def int32_contour_def is_int32_def)

subsection \<open>Rescaling\<close>

lemma round_half_even_of_int: "round_half_even (of_int z) = z"
  by (simp add: round_half_even_def Let_def)

lemma bitlen_one: "bitlen 1 = 1"
  by (simp add: bitlen_alt_def)

lemma f64_exponent_of_int:
  assumes "x \<noteq> 0"
  shows "f64_exponent (of_int x) = bitlen \<bar>x\<bar> - 1"
proof -
  have pos: "0 < \<bar>x\<bar>" using assms by simp
  have q: "quotient_of \<bar>rat_of_int x\<bar> = (\<bar>x\<bar>, 1)"
    by (simp flip: of_int_abs)
  have ge1: "1 \<le> bitlen \<bar>x\<bar>" using pos by (simp add: bitlen_alt_def)
  have "(2::int) ^ nat (bitlen \<bar>x\<bar> - 1) \<le> \<bar>x\<bar>"
    using bitlen_bounds[OF pos] by simp
  then have "rat_of_int (2 ^ nat (bitlen \<bar>x\<bar> - 1)) \<le> rat_of_int \<bar>x\<bar>"
    by (simp only: of_int_le_iff)
  then have le: "pow2 (bitlen \<bar>x\<bar> - 1) \<le> \<bar>rat_of_int x\<bar>"
    using ge1 by (simp add: pow2_def)
  show ?thesis
    using le by (simp add: f64_exponent_def q bitlen_one)
qed

lemma round_f64_of_int:
  assumes "\<bar>x\<bar> < 2 ^ 53"
  shows "round_f64 (of_int x) = of_int x"
proof (cases "x = 0")
  case True
  then show ?thesis by (simp add: round_f64_def)
next
  case False
  define k where "k = bitlen \<bar>x\<bar> - 1"
  have pos: "0 < \<bar>x\<bar>" using False by simp
  have k0: "0 \<le> k" using pos by (simp add: k_def bitlen_alt_def)
  have "bitlen \<bar>x\<bar> \<le> 53" using assms by (simp add: bitlen_le_iff_power)
  then have k52: "k \<le> 52" by (simp add: k_def)
  define j where "j = nat (52 - k)"
  have u: "pow2 (k - 52) = 1 / 2 ^ j"
    using k52 by (cases "k = 52") (simp_all add: pow2_def j_def)
  have m: "rat_of_int x / (1 / 2 ^ j) = rat_of_int (x * 2 ^ j)" by simp
  have e: "max (f64_exponent (rat_of_int x)) (- 1022) = k"
    using k0 by (simp add: f64_exponent_of_int[OF False] k_def)
  have "round_f64 (rat_of_int x) = rat_of_int (x * 2 ^ j) * (1 / 2 ^ j)"
    using False
    by (simp only: round_f64_def e Let_def u m round_half_even_of_int of_int_eq_0_iff if_False)
  then show ?thesis by simp
qed

lemma true_div_self: "h \<noteq> 0 \<Longrightarrow> true_div h h = Inr 1"
  using round_f64_of_int[of 1] by (simp add: true_div_def)

lemma trunc_rat_of_int: "trunc_rat (of_int x) = x"
  by (simp add: trunc_rat_def)

lemma rescale_point_unit:
  assumes "is_int32 (fst p)" "is_int32 (snd p)"
  shows "rescale_point (1, 1) p = p"
proof -
  have a: "f64_to_i32 (f64_mul (of_int z) 1) = z" if "is_int32 z" for z
  proof -
    have "\<bar>z\<bar> < 2 ^ 53" using that by (simp add: is_int32_def abs_less_iff)
    then have "f64_mul (of_int z) 1 = of_int z" by (simp add: f64_mul_def round_f64_of_int)
    then show ?thesis using that by (simp add: f64_to_i32_def trunc_rat_of_int)
  qed
  show ?thesis using assms by (simp add: rescale_point_def a)
qed

lemma square_contour_int32: "int32_contour square_contour"
  by (simp add: int32_contour_def square_contour_def is_int32_def)

text \<open>
  Claim C7. Rescaling from a resolution \<open>(H, W)\<close> to the same resolution returns the
  contours unchanged: the ratio \<open>H / H\<close> is exactly \<open>1.0\<close>, an int32 coordinate times
  \<open>1.0\<close> is that coordinate as a float, and storing it back into the int32 array loses
  nothing. A resolution has non-zero sides (at \<open>H = 0\<close> the division raises), and the
  contours are int32 arrays.
\<close>

theorem rescale_contours_unit_scale:
  assumes "H \<noteq> 0" "W \<noteq> 0" "list_all int32_contour contours"
  shows "rescale_contours contours H W H W = Inr contours"
proof -
  have "map (rescale_point (1, 1)) c = c" if "c \<in> set contours" for c
  proof -
    from that assms(3) have "int32_contour c" by (simp add: list_all_iff)
    then have "\<forall>p \<in> set c. rescale_point (1, 1) p = p"
      by (simp add: int32_contour_def list_all_iff rescale_point_unit)
    then show ?thesis by (simp add: map_idI)
  qed
  then have "map (map (rescale_point (1, 1))) contours = contours"
    by (simp add: map_idI)
  then show ?thesis
    using assms(1,2) by (simp add: rescale_contours_def true_div_self)
qed

theorem rescale_contours_unit_scale_witness:
  "(4::int) \<noteq> 0 \<and> (6::int) \<noteq> 0 \<and> list_all int32_contour [square_contour] \<and>
   rescale_contours [square_contour] 4 6 4 6 = Inr [square_contour]"
proof -
  have h: "(4::int) \<noteq> 0" and w: "(6::int) \<noteq> 0" by simp_all
  have cs: "list_all int32_contour [square_contour]" by (simp add: square_contour_int32)
  show ?thesis
    using cs rescale_contours_unit_scale [OF h w cs] by simp
qed

subsection \<open>Rounding is monotone\<close>

text \<open>
  The exponent chosen for a value brackets it between two powers of two, rounding to the
  nearest integer is monotone and odd, and so rounding to binary32 is monotone. A
  binary32 value that exceeds the rounded threshold therefore exceeds the threshold.
\<close>

lemma pow2_powi: "pow2 k = 2 powi k"
  by (cases "0 \<le> k") (simp_all add: pow2_def power_int_def power_one_over inverse_eq_divide)

lemma pow2_pos: "0 < pow2 k"
  by (simp add: pow2_powi)

lemma pow2_add: "pow2 (a + b) = pow2 a * pow2 b"
  by (simp add: pow2_powi power_int_add)

lemma pow2_diff: "pow2 (a - b) = pow2 a / pow2 b"
  by (simp add: pow2_powi power_int_diff)

lemma pow2_mono: "a \<le> b \<Longrightarrow> pow2 a \<le> pow2 b"
  by (simp add: pow2_powi power_int_increasing)

lemma pow2_less_imp: "pow2 a < pow2 b \<Longrightarrow> a < b"
  using pow2_mono[of b a] by (cases "a < b") auto

lemma pow2_nat: "pow2 (int n) = 2 ^ n"
  by (simp add: pow2_def)

lemma f64_exponent_bounds:
  assumes "q \<noteq> 0"
  shows "pow2 (f64_exponent q) \<le> \<bar>q\<bar> \<and> \<bar>q\<bar> < pow2 (f64_exponent q + 1)"
proof -
  obtain n d where nd: "quotient_of \<bar>q\<bar> = (n, d)" by (cases "quotient_of \<bar>q\<bar>")
  have d: "0 < d" using nd by (rule quotient_of_denom_pos)
  have q: "\<bar>q\<bar> = of_int n / of_int d" using nd by (rule quotient_of_div)
  have "0 < \<bar>q\<bar>" using assms by simp
  with q d have n: "0 < n" by (simp add: zero_less_divide_iff)
  define bn where "bn = bitlen n"
  define bd where "bd = bitlen d"
  have bn1: "1 \<le> bn" using n by (simp add: bn_def bitlen_alt_def)
  have bd1: "1 \<le> bd" using d by (simp add: bd_def bitlen_alt_def)
  from bitlen_bounds[OF n] have "(2::int) ^ nat (bn - 1) \<le> n" "n < 2 ^ nat bn"
    by (simp_all add: bn_def)
  then have "rat_of_int (2 ^ nat (bn - 1)) \<le> rat_of_int n" "rat_of_int n < rat_of_int (2 ^ nat bn)"
    by (simp_all only: of_int_le_iff of_int_less_iff)
  then have nb: "pow2 (bn - 1) \<le> of_int n" "rat_of_int n < pow2 bn"
    using bn1 by (simp_all add: pow2_def)
  from bitlen_bounds[OF d] have "(2::int) ^ nat (bd - 1) \<le> d" "d < 2 ^ nat bd"
    by (simp_all add: bd_def)
  then have "rat_of_int (2 ^ nat (bd - 1)) \<le> rat_of_int d" "rat_of_int d < rat_of_int (2 ^ nat bd)"
    by (simp_all only: of_int_le_iff of_int_less_iff)
  then have db: "pow2 (bd - 1) \<le> of_int d" "rat_of_int d < pow2 bd"
    using bd1 by (simp_all add: pow2_def)
  define k where "k = bn - bd"
  have dpos: "0 < rat_of_int d" using d by simp
  have npos: "0 < rat_of_int n" using n by simp
  have up: "\<bar>q\<bar> < pow2 (k + 1)"
  proof -
    have "rat_of_int n < pow2 bn" by (rule nb(2))
    also have "pow2 bn = pow2 (k + 1) * pow2 (bd - 1)"
      by (simp add: k_def pow2_add[symmetric])
    also have "\<dots> \<le> pow2 (k + 1) * of_int d"
      using db(1) pow2_pos[of "k + 1"] by (simp add: mult_left_mono)
    finally show ?thesis using dpos by (simp add: q pos_divide_less_eq)
  qed
  have lo: "pow2 (k - 1) < \<bar>q\<bar>"
  proof -
    have "pow2 (k - 1) * of_int d < pow2 (k - 1) * pow2 bd"
      using db(2) pow2_pos[of "k - 1"] by (simp add: mult_strict_left_mono)
    also have "\<dots> = pow2 (bn - 1)"
      by (simp add: k_def pow2_add[symmetric])
    also have "\<dots> \<le> of_int n" by (rule nb(1))
    finally show ?thesis using dpos by (simp add: q pos_less_divide_eq)
  qed
  show ?thesis
  proof (cases "pow2 k \<le> \<bar>q\<bar>")
    case True
    then have "f64_exponent q = k"
      by (simp add: f64_exponent_def nd k_def bn_def bd_def)
    with True up show ?thesis by simp
  next
    case False
    then have "f64_exponent q = k - 1"
      by (simp add: f64_exponent_def nd k_def bn_def bd_def)
    with False lo show ?thesis by simp
  qed
qed

lemma f64_exponent_mono:
  assumes "x \<noteq> 0" and "\<bar>x\<bar> \<le> \<bar>y\<bar>"
  shows "f64_exponent x \<le> f64_exponent y"
proof -
  from assms have y: "y \<noteq> 0" by auto
  have "pow2 (f64_exponent x) \<le> \<bar>x\<bar>" using f64_exponent_bounds[OF assms(1)] by simp
  also have "\<dots> \<le> \<bar>y\<bar>" by (rule assms(2))
  also have "\<dots> < pow2 (f64_exponent y + 1)" using f64_exponent_bounds[OF y] by simp
  finally have "f64_exponent x < f64_exponent y + 1" by (rule pow2_less_imp)
  then show ?thesis by simp
qed

lemma round_half_even_bounds: "\<lfloor>x\<rfloor> \<le> round_half_even x \<and> round_half_even x \<le> \<lfloor>x\<rfloor> + 1"
  by (simp add: round_half_even_def Let_def)

lemma round_half_even_mono:
  assumes "x \<le> y"
  shows "round_half_even x \<le> round_half_even y"
proof (cases "\<lfloor>x\<rfloor> < \<lfloor>y\<rfloor>")
  case True
  have "round_half_even x \<le> \<lfloor>x\<rfloor> + 1" using round_half_even_bounds[of x] by simp
  also have "\<dots> \<le> \<lfloor>y\<rfloor>" using True by simp
  also have "\<dots> \<le> round_half_even y" using round_half_even_bounds[of y] by simp
  finally show ?thesis .
next
  case False
  with assms have eq: "\<lfloor>x\<rfloor> = \<lfloor>y\<rfloor>" using floor_mono[OF assms] by simp
  have "x - of_int \<lfloor>y\<rfloor> \<le> y - of_int \<lfloor>y\<rfloor>" using assms by simp
  then show ?thesis
    by (auto simp add: round_half_even_def Let_def eq)
qed

lemma round_half_even_minus: "round_half_even (- x) = - round_half_even x"
proof (cases "x = of_int \<lfloor>x\<rfloor>")
  case True
  then obtain z where "x = of_int z" ..
  then have "- x = of_int (- z)" by simp
  then show ?thesis unfolding \<open>x = of_int z\<close>
    by (simp only: round_half_even_of_int flip: of_int_minus)
next
  case False
  have "\<lceil>x\<rceil> = (if x = of_int \<lfloor>x\<rfloor> then \<lfloor>x\<rfloor> else \<lfloor>x\<rfloor> + 1)"
    by (rule ceiling_altdef)
  with False have c: "\<lceil>x\<rceil> = \<lfloor>x\<rfloor> + 1" by (simp only: if_False)
  have fl: "\<lfloor>- x\<rfloor> = - \<lfloor>x\<rfloor> - 1"
    by (simp add: floor_minus c)
  from not_sym[OF False] of_int_floor_le[of x] have lt: "of_int \<lfloor>x\<rfloor> < x"
    by (rule order.not_eq_order_implies_strict)
  show ?thesis
    using lt by (auto simp add: round_half_even_def Let_def fl)
qed


lemma round_f32_minus: "round_f32 (- q) = - round_f32 q"
  by (simp add: round_f32_def f64_exponent_def Let_def round_half_even_minus)

lemma round_f32_nonneg: "0 \<le> q \<Longrightarrow> 0 \<le> round_f32 q"
proof -
  assume q: "0 \<le> q"
  have "0 \<le> round_half_even (q / pow2 k)" for k
  proof -
    have "0 \<le> q / pow2 k" using q pow2_pos[of k] by simp
    then have "0 \<le> \<lfloor>q / pow2 k\<rfloor>" by simp
    with round_half_even_bounds[of "q / pow2 k"] show ?thesis by linarith
  qed
  then show ?thesis
    using pow2_pos by (simp add: round_f32_def Let_def less_imp_le)
qed

lemma round_f32_pos_mono:
  assumes x: "0 < x" and xy: "x \<le> y"
  shows "round_f32 x \<le> round_f32 y"
proof -
  have y: "0 < y" using x xy by simp
  define ex where "ex = max (f64_exponent x) (- 126)"
  define ey where "ey = max (f64_exponent y) (- 126)"
  have rx: "round_f32 x = of_int (round_half_even (x / pow2 (ex - 23))) * pow2 (ex - 23)"
    using x by (simp add: round_f32_def Let_def ex_def)
  have ry: "round_f32 y = of_int (round_half_even (y / pow2 (ey - 23))) * pow2 (ey - 23)"
    using y by (simp add: round_f32_def Let_def ey_def)
  have "f64_exponent x \<le> f64_exponent y"
    using x y xy by (intro f64_exponent_mono) simp_all
  then have exy: "ex \<le> ey" by (simp add: ex_def ey_def)
  show ?thesis
  proof (cases "ex = ey")
    case True
    have "x / pow2 (ey - 23) \<le> y / pow2 (ey - 23)"
      using xy pow2_pos[of "ey - 23"] by (simp add: divide_right_mono)
    then have "round_half_even (x / pow2 (ey - 23)) \<le> round_half_even (y / pow2 (ey - 23))"
      by (rule round_half_even_mono)
    then have "rat_of_int (round_half_even (x / pow2 (ey - 23)))
                 \<le> rat_of_int (round_half_even (y / pow2 (ey - 23)))"
      by simp
    then show ?thesis
      using pow2_pos[of "ey - 23"] by (simp add: rx ry True mult_right_mono)
  next
    case False
    with exy have lt: "ex + 1 \<le> ey" by simp
    then have "- 126 < ey" by (simp add: ex_def)
    then have eyf: "ey = f64_exponent y" by (simp add: ey_def)
    have up: "round_f32 x \<le> pow2 (ex + 1)"
    proof -
      have "x < pow2 (f64_exponent x + 1)"
        using f64_exponent_bounds[of x] x by simp
      also have "\<dots> \<le> pow2 (ex + 1)" by (rule pow2_mono) (simp add: ex_def)
      finally have "x / pow2 (ex - 23) \<le> pow2 (ex + 1) / pow2 (ex - 23)"
        using pow2_pos[of "ex - 23"] by (simp add: divide_right_mono)
      also have "pow2 (ex + 1) / pow2 (ex - 23) = rat_of_int (2 ^ 24)"
        by (simp only: pow2_diff[symmetric]) (simp add: pow2_def)
      finally have "round_half_even (x / pow2 (ex - 23)) \<le> round_half_even (rat_of_int (2 ^ 24))"
        by (rule round_half_even_mono)
      then have "rat_of_int (round_half_even (x / pow2 (ex - 23))) \<le> rat_of_int (2 ^ 24)"
        by (simp only: round_half_even_of_int of_int_le_iff)
      then have "round_f32 x \<le> rat_of_int (2 ^ 24) * pow2 (ex - 23)"
        using pow2_pos[of "ex - 23"] by (simp add: rx mult_right_mono)
      also have "rat_of_int (2 ^ 24) * pow2 (ex - 23) = pow2 24 * pow2 (ex - 23)"
        by (simp add: pow2_def)
      also have "\<dots> = pow2 (ex + 1)" by (simp only: pow2_add[symmetric]) (simp add: ac_simps)
      finally show ?thesis .
    qed
    have lo: "pow2 ey \<le> round_f32 y"
    proof -
      have "pow2 ey \<le> y" using f64_exponent_bounds[of y] y by (simp add: eyf)
      then have "pow2 ey / pow2 (ey - 23) \<le> y / pow2 (ey - 23)"
        using pow2_pos[of "ey - 23"] by (simp add: divide_right_mono)
      moreover have "pow2 ey / pow2 (ey - 23) = rat_of_int (2 ^ 23)"
        by (simp only: pow2_diff[symmetric]) (simp add: pow2_def)
      ultimately have "round_half_even (rat_of_int (2 ^ 23)) \<le> round_half_even (y / pow2 (ey - 23))"
        by (intro round_half_even_mono) simp
      then have "rat_of_int (2 ^ 23) \<le> rat_of_int (round_half_even (y / pow2 (ey - 23)))"
        by (simp only: round_half_even_of_int of_int_le_iff)
      then have "rat_of_int (2 ^ 23) * pow2 (ey - 23) \<le> round_f32 y"
        using pow2_pos[of "ey - 23"] by (simp add: ry mult_right_mono)
      moreover have "rat_of_int (2 ^ 23) * pow2 (ey - 23) = pow2 23 * pow2 (ey - 23)"
        by (simp add: pow2_def)
      moreover have "pow2 23 * pow2 (ey - 23) = pow2 ey" by (simp only: pow2_add[symmetric]) (simp add: ac_simps)
      ultimately show ?thesis by simp
    qed
    from up pow2_mono[OF lt] lo show ?thesis by linarith
  qed
qed

lemma round_f32_mono:
  assumes "x \<le> y"
  shows "round_f32 x \<le> round_f32 y"
proof -
  consider "0 < x" | "x \<le> 0" "0 \<le> y" | "y < 0" by linarith
  then show ?thesis
  proof cases
    case 1
    then show ?thesis using assms by (rule round_f32_pos_mono)
  next
    case 2
    have "round_f32 x \<le> 0"
      using round_f32_nonneg[of "- x"] 2(1) by (simp add: round_f32_minus)
    moreover have "0 \<le> round_f32 y" using 2(2) by (rule round_f32_nonneg)
    ultimately show ?thesis by simp
  next
    case 3
    then have "0 < - y" "- y \<le> - x" using assms by simp_all
    then have "round_f32 (- y) \<le> round_f32 (- x)" by (rule round_f32_pos_mono)
    then show ?thesis by (simp add: round_f32_minus)
  qed
qed

lemma f32_threshold_sound:
  assumes "round_f32 p = p" and "round_f32 t < p"
  shows "t < p"
proof (rule ccontr)
  assume "\<not> t < p"
  then have "p \<le> t" by simp
  then have "round_f32 p \<le> round_f32 t" by (rule round_f32_mono)
  with assms show False by simp
qed

subsection \<open>The loops of the assembler\<close>

lemma append_records_eq:
  "append_records n zs acc = acc @ map (\<lambda>(c, b). \<lparr>polygon = c, bbox = b, class_name = n\<rparr>) zs"
  by (induction zs arbitrary: acc) auto

lemma class_loop_step:
  "class_loop fc self pred h w ((i, n) # rest) acc =
     (case class_records fc self pred h w i n of
        Inl e \<Rightarrow> Inl e
      | Inr rs \<Rightarrow> class_loop fc self pred h w rest (acc @ rs))"
  by (simp add: class_records_def append_records_eq split: option.splits sum.splits)

lemma class_loop_Inr:
  "class_loop fc self pred h w cs acc = Inr out \<longleftrightarrow>
     (\<exists>rss. list_all2 (\<lambda>c rs. class_records fc self pred h w (fst c) (snd c) = Inr rs) cs rss
            \<and> out = acc @ concat rss)"
proof (induction cs arbitrary: acc)
  case Nil
  then show ?case by auto
next
  case (Cons c cs)
  obtain i n where c: "c = (i, n)" by (cases c)
  show ?case
  proof (cases "class_records fc self pred h w i n")
    case (Inl e)
    then show ?thesis
      by (simp add: c class_loop_step list_all2_Cons1 del: class_loop.simps)
  next
    case (Inr rs)
    show ?thesis
      by (auto simp add: c class_loop_step Inr Cons.IH list_all2_Cons1 simp del: class_loop.simps)
  qed
qed

lemma class_loop_Inl:
  "class_records fc self pred h w (fst c) (snd c) = Inl e \<Longrightarrow> c \<in> set cs \<Longrightarrow>
     \<exists>e'. class_loop fc self pred h w cs acc = Inl e'"
proof (induction cs arbitrary: acc)
  case Nil
  then show ?case by simp
next
  case (Cons d cs)
  obtain i n where d: "d = (i, n)" by (cases d)
  show ?case
  proof (cases "class_records fc self pred h w i n")
    case (Inl e)
    then show ?thesis by (simp add: d class_loop_step del: class_loop.simps)
  next
    case (Inr rs)
    with Cons.prems d have "c \<in> set cs" by auto
    from Cons.IH[OF Cons.prems(1) this] show ?thesis
      by (simp add: d class_loop_step Inr del: class_loop.simps)
  qed
qed

lemma image_loop_step:
  "image_loop fc self ((img, pred) # rest) acc =
     (case image_record fc self img pred of
        Inl e \<Rightarrow> Inl e
      | Inr ip \<Rightarrow> image_loop fc self rest (acc @ [ip]))"
  by (simp add: image_record_def split: sum.splits prod.splits)

lemma image_loop_Inr:
  "image_loop fc self zs acc = Inr out \<longleftrightarrow>
     (\<exists>ips. list_all2 (\<lambda>z ip. image_record fc self (fst z) (snd z) = Inr ip) zs ips
            \<and> out = acc @ ips)"
proof (induction zs arbitrary: acc)
  case Nil
  then show ?case by auto
next
  case (Cons z zs)
  obtain img pred where z: "z = (img, pred)" by (cases z)
  show ?case
  proof (cases "image_record fc self img pred")
    case (Inl e)
    then show ?thesis
      by (simp add: z image_loop_step list_all2_Cons1 del: image_loop.simps)
  next
    case (Inr ip)
    show ?thesis
      by (auto simp add: z image_loop_step Inr Cons.IH list_all2_Cons1 simp del: image_loop.simps)
  qed
qed

lemma image_loop_Inl:
  "image_record fc self (fst z) (snd z) = Inl e \<Longrightarrow> z \<in> set zs \<Longrightarrow>
     \<exists>e'. image_loop fc self zs acc = Inl e'"
proof (induction zs arbitrary: acc)
  case Nil
  then show ?case by simp
next
  case (Cons d zs)
  obtain img pred where d: "d = (img, pred)" by (cases d)
  show ?case
  proof (cases "image_record fc self img pred")
    case (Inl e)
    then show ?thesis by (simp add: d image_loop_step del: image_loop.simps)
  next
    case (Inr ip)
    with Cons.prems d have "z \<in> set zs" by auto
    from Cons.IH[OF Cons.prems(1) this] show ?thesis
      by (simp add: d image_loop_step Inr del: image_loop.simps)
  qed
qed

subsection \<open>The sample data, evaluated\<close>

lemma round_f32_half: "round_f32 (1 / 2) = 1 / 2"
  by code_simp

lemma round_f32_three_quarters: "round_f32 (3 / 4) = 3 / 4"
  by code_simp

lemma sample_threshold: "astype_uint8 (mask_preprocess sample_prob (1 / 2)) = sample_mask"
  by (simp add: astype_uint8_def mask_preprocess_def sample_prob_def sample_mask_def
      round_f32_half)

lemma zero_threshold: "astype_uint8 (mask_preprocess zero_prob (1 / 2)) \<noteq> sample_mask"
  by (simp add: astype_uint8_def mask_preprocess_def zero_prob_def sample_mask_def
      round_f32_half)

lemma block_threshold: "astype_uint8 (mask_preprocess block_prob (1 / 2)) = block_mask"
  by (simp add: astype_uint8_def mask_preprocess_def block_prob_def block_mask_def
      round_f32_half)

lemma square_contour_area: "cv_contourArea square_contour = 1"
  by code_simp

lemma block_contour_area: "cv_contourArea block_contour = 4"
  by code_simp

lemma sample_extract:
  "get_contours_from_mask sample_findContours (mask_preprocess sample_prob (1 / 2)) 1
     = [square_contour]"
  by (simp add: get_contours_from_mask_def sample_threshold sample_findContours_def
      square_contour_area)

lemma sample_rescale:
  "rescale_contours [square_contour] 4 4 6 6 = Inr [[(1, 1), (1, 3), (3, 3), (3, 1)]]"
  by code_simp

lemma sample_spec_rescale:
  "spec_rescale [square_contour] 4 4 6 6 = [[(3 / 2, 3 / 2), (3 / 2, 3), (3, 3), (3, 3 / 2)]]"
  by code_simp

lemma sample_postprocess:
  "get_contours_from_predictions sample_findContours sample_prob sample_params 4 4 6 6
     = Inr ([[[1, 1], [1, 3], [3, 3], [3, 1]]], [(1, 1, 4, 4)])"
  by (simp add: get_contours_from_predictions_def sample_params_def sample_extract sample_rescale
      reduce_contours_dims_def contour2bbox_def cv_boundingRect_def wrap_i32_def)

lemma sample_shape: "image_shape2 (NdArray sample_image) = Inr (6, 6)"
  by (simp add: image_shape2_def sample_image_def)

lemma sample_class_records:
  "class_records sample_findContours sample_predictor (sample_prob # chs) 6 6 0 ''text''
     = Inr (predictions sample_record)"
  by (simp add: class_records_def sample_predictor_def sample_postprocess sample_record_def)

lemma sample_class_loop:
  "class_loop sample_findContours sample_predictor (sample_prob # chs) 6 6
     (enumerate 0 (map fst (cls2params sample_predictor))) [] = Inr (predictions sample_record)"
proof -
  have "enumerate 0 (map fst (cls2params sample_predictor)) = [(0, ''text'')]"
    by (simp add: sample_predictor_def)
  then show ?thesis
    by (simp add: class_loop_step sample_class_records del: class_loop.simps(2))
qed

lemma sample_image_record:
  "image_record sample_findContours sample_predictor (NdArray sample_image) (sample_prob # chs)
     = Inr sample_record"
  by (simp add: image_record_def sample_shape sample_class_loop) (simp add: sample_record_def)

lemma sample_image_loop:
  "image_loop sample_findContours sample_predictor [(NdArray sample_image, sample_prob # chs)] []
     = Inr [sample_record]"
  by (simp add: image_loop_step sample_image_record del: image_loop.simps(2))

lemma sample_transforms_ok:
  "transforms sample_predictor [NdArray sample_image] = Inr [NdArray sample_image]"
  by (simp add: sample_predictor_def sample_transforms_def is_ndarray_def)

lemma sample_model_ok:
  "model sample_predictor [NdArray sample_image] = Inr [[sample_prob]]"
  by (simp add: sample_predictor_def sample_model_def)

lemma sample_call_one:
  "SegmPredictor_call sample_findContours sample_predictor (NdArray sample_image)
     = Inr (One sample_record)"
  by (simp add: SegmPredictor_call_def run_images_def predict_def sample_transforms_ok
      sample_model_ok sample_image_loop del: image_loop.simps)

lemma sample_call_many:
  "SegmPredictor_call sample_findContours sample_predictor (PyList [NdArray sample_image])
     = Inr (Many [sample_record])"
  by (simp add: SegmPredictor_call_def run_images_def predict_def sample_transforms_ok
      sample_model_ok sample_image_loop del: image_loop.simps)

subsection \<open>Thresholding and area filtering\<close>

text \<open>
  Claim C10. Thresholding is a strict comparison: the mask has the shape of the
  probability map; a binary32 cell is foreground exactly when it is strictly greater
  than the threshold as converted to binary32, so a foreground cell is strictly greater
  than the threshold itself, and a cell whose probability equals the threshold is
  background.
\<close>

theorem mask_preprocess_strict:
  assumes "i < length pred" and "j < length (pred ! i)"
    and "round_f32 (pred ! i ! j) = pred ! i ! j"
  shows "length (mask_preprocess pred t) = length pred
         \<and> length (mask_preprocess pred t ! i) = length (pred ! i)
         \<and> (mask_preprocess pred t ! i ! j \<longleftrightarrow> round_f32 t < pred ! i ! j)
         \<and> (mask_preprocess pred t ! i ! j \<longrightarrow> t < pred ! i ! j)
         \<and> (pred ! i ! j = t \<longrightarrow> \<not> mask_preprocess pred t ! i ! j)"
proof -
  have m: "mask_preprocess pred t ! i ! j \<longleftrightarrow> round_f32 t < pred ! i ! j"
    using assms(1,2) by (simp add: mask_preprocess_def)
  have fg: "mask_preprocess pred t ! i ! j \<longrightarrow> t < pred ! i ! j"
    using m f32_threshold_sound[OF assms(3)] by blast
  have eq: "pred ! i ! j = t \<longrightarrow> \<not> mask_preprocess pred t ! i ! j"
    using m assms(3) by auto
  have len: "length (mask_preprocess pred t) = length pred"
    "length (mask_preprocess pred t ! i) = length (pred ! i)"
    using assms(1) by (simp_all add: mask_preprocess_def)
  from len m fg eq show ?thesis by blast
qed

theorem mask_preprocess_strict_witness:
  "(1::nat) < length sample_prob \<and> (3::nat) < length (sample_prob ! 1)
   \<and> sample_prob ! 1 ! 3 = 1 / 2 \<and> round_f32 (sample_prob ! 1 ! 3) = sample_prob ! 1 ! 3
   \<and> \<not> mask_preprocess sample_prob (1 / 2) ! 1 ! 3
   \<and> mask_preprocess sample_prob (1 / 2) ! 1 ! 2"
proof -
  have i: "(1::nat) < length sample_prob" by (simp add: sample_prob_def)
  have j: "(3::nat) < length (sample_prob ! 1)" by (simp add: sample_prob_def)
  have j': "(2::nat) < length (sample_prob ! 1)" by (simp add: sample_prob_def)
  have v: "sample_prob ! 1 ! 3 = 1 / 2" "sample_prob ! 1 ! 2 = 3 / 4"
    by (simp_all add: sample_prob_def)
  have r: "round_f32 (sample_prob ! 1 ! 3) = sample_prob ! 1 ! 3"
    by (simp only: v round_f32_half)
  have r': "round_f32 (sample_prob ! 1 ! 2) = sample_prob ! 1 ! 2"
    by (simp only: v round_f32_three_quarters)
  show ?thesis
    using i j v r mask_preprocess_strict [OF i j r, of "1 / 2"]
      mask_preprocess_strict [OF i j' r', of "1 / 2"]
    by (simp add: round_f32_half)
qed

lemma area_filter_loop_eq:
  "area_filter_loop cs m acc = acc @ filter (\<lambda>c. m \<le> cv_contourArea c) cs"
  by (induction cs arbitrary: acc) simp_all

lemma get_contours_from_mask_eq:
  "get_contours_from_mask fc mask_b m =
     filter (\<lambda>c. m \<le> cv_contourArea c) (fc (astype_uint8 mask_b))"
  by (simp add: get_contours_from_mask_def area_filter_loop_eq)

text \<open>
  Claim C3, as the code has it. The area compared with \<open>min_area\<close> is the one
  \<open>cv2.contourArea\<close> gives for the contour, the area of the polygon through the boundary
  pixels, not the number of pixels of the blob. The extractor returns, in their order of
  discovery, exactly the contours found in the mask whose \<open>cv2.contourArea\<close> is at least
  \<open>min_area\<close>; so every returned contour has such an area \<open>\<ge> min_area\<close>. In
  particular, when the mask holds one blob, found as the single contour \<open>blob\<close> with
  \<open>cv2.contourArea\<close> equal to \<open>A\<close>, extraction with \<open>min_area = A + 1\<close> returns nothing and
  extraction with \<open>min_area = A\<close> returns exactly that contour.
\<close>

theorem get_contours_from_mask_area_filter:
  "get_contours_from_mask fc mask_b m =
     filter (\<lambda>c. m \<le> cv_contourArea c) (fc (astype_uint8 mask_b))
   \<and> (\<forall>c \<in> set (get_contours_from_mask fc mask_b m). m \<le> cv_contourArea c)
   \<and> (fc (astype_uint8 mask_b) = [blob] \<and> cv_contourArea blob = A \<longrightarrow>
        get_contours_from_mask fc mask_b (A + 1) = []
        \<and> get_contours_from_mask fc mask_b A = [blob])"
  by (simp add: get_contours_from_mask_eq)

theorem get_contours_from_mask_area_filter_witness:
  "block_findContours (astype_uint8 (mask_preprocess block_prob (1 / 2))) = [block_contour]
   \<and> cv_contourArea block_contour = 4
   \<and> get_contours_from_mask block_findContours (mask_preprocess block_prob (1 / 2)) (4 + 1) = []
   \<and> get_contours_from_mask block_findContours (mask_preprocess block_prob (1 / 2)) 4
       = [block_contour]"
proof -
  have f: "block_findContours (astype_uint8 (mask_preprocess block_prob (1 / 2)))
             = [block_contour]"
    by (simp add: block_threshold block_findContours_def)
  show ?thesis
    using f block_contour_area
      get_contours_from_mask_area_filter [of block_findContours
        "mask_preprocess block_prob (1 / 2)" 4 block_contour 4]
    by simp
qed

text \<open>
  Claim C3 as the specification words it, with the area of a blob the area of the mask
  it covers, fails on a blob of 2 x 2 pixels: its area is 4, its single contour runs
  through the four pixels and encloses an area of 1, and extraction with \<open>min_area = 4\<close>
  returns nothing where the claim expects one contour.
\<close>

theorem get_contours_from_mask_pixel_area_counterexample:
  "foreground_pixels (astype_uint8 (mask_preprocess sample_prob (1 / 2))) = 4
   \<and> sample_findContours (astype_uint8 (mask_preprocess sample_prob (1 / 2))) = [square_contour]
   \<and> cv_contourArea square_contour = 1
   \<and> get_contours_from_mask sample_findContours (mask_preprocess sample_prob (1 / 2)) 4 = []"
  by (simp add: get_contours_from_mask_eq sample_threshold sample_findContours_def
      square_contour_area) (simp add: foreground_pixels_def sample_mask_def)

subsection \<open>The class postprocessor\<close>

lemma polygon_points_reduce: "map polygon_points (reduce_contours_dims cs) = cs"
  by (simp add: polygon_points_def reduce_contours_dims_def comp_def map_idI)

lemma sample_spec_bbox:
  "spec_bbox [(3 / 2, 3 / 2), (3 / 2, 3), (3, 3), (3, 3 / 2 :: rat)] = (3 / 2, 3 / 2, 3, 3)"
  by (simp add: spec_bbox_def Let_def)

text \<open>
  Claim C1, as the code has it. Rescaling stores every product \<open>x * x_scale\<close>,
  \<open>y * y_scale\<close> back into the int32 array of the contour, so each coordinate is truncated
  toward zero at the rescale step. Each bounding box is computed from that truncated
  contour, and the final reduction changes no value: the polygons returned are the
  truncated rescaled contours, and the box returned with a polygon is the bounding box of
  that integer polygon.
\<close>

theorem class_postprocessor_bbox_of_truncated:
  assumes "get_contours_from_predictions fc pred params ph pw ih iw = Inr (polys, bboxes)"
  shows "\<exists>x_ratio y_ratio extracted rescaled.
           true_div iw pw = Inr x_ratio \<and> true_div ih ph = Inr y_ratio
           \<and> extracted = get_contours_from_mask fc (mask_preprocess pred (threshold params))
                           (min_area params)
           \<and> rescale_contours extracted ph pw ih iw = Inr rescaled
           \<and> rescaled = map (map (\<lambda>p. (f64_to_i32 (f64_mul (of_int (fst p)) x_ratio),
                                         f64_to_i32 (f64_mul (of_int (snd p)) y_ratio)))) extracted
           \<and> map polygon_points polys = rescaled
           \<and> bboxes = map contour2bbox rescaled
           \<and> bboxes = map (\<lambda>poly. contour2bbox (polygon_points poly)) polys"
proof -
  define extracted where
    "extracted = get_contours_from_mask fc (mask_preprocess pred (threshold params)) (min_area params)"
  from assms obtain rescaled where r: "rescale_contours extracted ph pw ih iw = Inr rescaled"
    and p: "polys = reduce_contours_dims rescaled" and b: "bboxes = map contour2bbox rescaled"
    by (auto simp add: get_contours_from_predictions_def Let_def extracted_def split: sum.splits)
  from r obtain y_ratio x_ratio where y: "true_div ih ph = Inr y_ratio"
    and x: "true_div iw pw = Inr x_ratio"
    and m: "rescaled = map (map (rescale_point (x_ratio, y_ratio))) extracted"
    by (auto simp add: rescale_contours_def split: sum.splits)
  have m': "rescaled = map (map (\<lambda>p. (f64_to_i32 (f64_mul (of_int (fst p)) x_ratio),
                                      f64_to_i32 (f64_mul (of_int (snd p)) y_ratio)))) extracted"
    by (simp add: m rescale_point_def)
  have pp: "map polygon_points polys = rescaled"
    by (simp only: p polygon_points_reduce)
  have bb: "bboxes = map (\<lambda>poly. contour2bbox (polygon_points poly)) polys"
    by (simp add: b pp[symmetric] comp_def)
  from x y r m' pp b bb extracted_def show ?thesis by blast
qed

theorem class_postprocessor_bbox_of_truncated_witness:
  "get_contours_from_predictions sample_findContours sample_prob sample_params 4 4 6 6
     = Inr ([[[1, 1], [1, 3], [3, 3], [3, 1]]], [(1, 1, 4, 4)])
   \<and> [(1, 1, 4, 4)]
       = map (\<lambda>poly. contour2bbox (polygon_points poly)) [[[1, 1], [1, 3], [3, 3], [3, 1]]]"
proof -
  from class_postprocessor_bbox_of_truncated [OF sample_postprocess]
  have "[(1, 1, 4, 4)]
          = map (\<lambda>poly. contour2bbox (polygon_points poly)) [[[1, 1], [1, 3], [3, 3], [3, 1]]]"
    by blast
  with sample_postprocess show ?thesis by (rule conjI)
qed

text \<open>
  Claim C1 as the specification words it fails where the scale is not an integer. From a
  4 x 4 prediction to a 6 x 6 image the scale is 1.5; the un-truncated scaled contour has
  \<open>min(x) = 1.5\<close> and the specification's box \<open>(1.5, 1.5, 3, 3)\<close>, while the rescaler
  returns integer points and the postprocessor the box \<open>(1, 1, 4, 4)\<close>.
\<close>

theorem class_postprocessor_float_bbox_counterexample:
  "get_contours_from_predictions sample_findContours sample_prob sample_params 4 4 6 6
     = Inr ([[[1, 1], [1, 3], [3, 3], [3, 1]]], [(1, 1, 4, 4)])
   \<and> rescale_contours [square_contour] 4 4 6 6 = Inr [[(1, 1), (1, 3), (3, 3), (3, 1)]]
   \<and> spec_rescale [square_contour] 4 4 6 6 = [[(3 / 2, 3 / 2), (3 / 2, 3), (3, 3), (3, 3 / 2)]]
   \<and> spec_bbox [(3 / 2, 3 / 2), (3 / 2, 3), (3, 3), (3, 3 / 2 :: rat)] = (3 / 2, 3 / 2, 3, 3)
   \<and> bbox_as_rat (1, 1, 4, 4) \<noteq> spec_bbox [(3 / 2, 3 / 2), (3 / 2, 3), (3, 3), (3, 3 / 2)]"
  by (simp add: sample_postprocess sample_rescale sample_spec_rescale sample_spec_bbox bbox_as_rat_def)

subsection \<open>The entrypoint and its input\<close>

lemma rescale_contours_Inl:
  "rescale_contours cs ph pw ih iw = Inl e \<Longrightarrow> e = ZeroDivisionError"
  by (auto simp add: rescale_contours_def true_div_def split: sum.splits if_splits)

lemma postprocess_Inl:
  "get_contours_from_predictions fc pred params ph pw ih iw = Inl e \<Longrightarrow> e = ZeroDivisionError"
  by (auto simp add: get_contours_from_predictions_def Let_def split: sum.splits
      dest: rescale_contours_Inl)

lemma class_records_Inl:
  "class_records fc self pred h w i n = Inl e \<Longrightarrow>
     e = IndexError \<or> e = KeyError \<or> e = ZeroDivisionError"
  by (auto simp add: class_records_def split: if_splits option.splits sum.splits prod.splits
      dest: postprocess_Inl)

lemma class_loop_Inl_kind:
  "class_loop fc self pred h w cs acc = Inl e \<Longrightarrow>
     e = IndexError \<or> e = KeyError \<or> e = ZeroDivisionError"
proof (induction cs arbitrary: acc)
  case Nil
  then show ?case by simp
next
  case (Cons c cs)
  obtain i n where c: "c = (i, n)" by (cases c)
  show ?case
  proof (cases "class_records fc self pred h w i n")
    case (Inl e')
    with Cons.prems have "e = e'"
      by (simp add: c class_loop_step del: class_loop.simps)
    with Inl show ?thesis by (auto dest: class_records_Inl)
  next
    case (Inr rs)
    with Cons.prems have "class_loop fc self pred h w cs (acc @ rs) = Inl e"
      by (simp add: c class_loop_step del: class_loop.simps)
    then show ?thesis by (rule Cons.IH)
  qed
qed

lemma image_record_Inl_kind:
  "image_record fc self img pred = Inl e \<Longrightarrow> \<forall>m. e \<noteq> Exception m \<and> e \<noteq> External m"
  by (auto simp add: image_record_def image_shape2_def
      split: sum.splits prod.splits pyobj.splits list.splits dest: class_loop_Inl_kind)

lemma image_loop_Inl_kind:
  "image_loop fc self zs acc = Inl e \<Longrightarrow> \<forall>m. e \<noteq> Exception m \<and> e \<noteq> External m"
proof (induction zs arbitrary: acc)
  case Nil
  then show ?case by simp
next
  case (Cons z zs)
  obtain img pred where z: "z = (img, pred)" by (cases z)
  show ?case
  proof (cases "image_record fc self img pred")
    case (Inl e')
    with Cons.prems have "e = e'"
      by (simp add: z image_loop_step del: image_loop.simps)
    with Inl show ?thesis by (auto dest: image_record_Inl_kind)
  next
    case (Inr ip)
    with Cons.prems have "image_loop fc self zs (acc @ [ip]) = Inl e"
      by (simp add: z image_loop_step del: image_loop.simps)
    then show ?thesis by (rule Cons.IH)
  qed
qed

lemma run_images_not_Exception: "run_images fc self xs one \<noteq> Inl (Exception m)"
  by (auto simp add: run_images_def split: sum.splits list.splits dest: image_loop_Inl_kind)

text \<open>
  Claim C9, as the code has it. The entrypoint raises its input-kind error, whose message
  names the class of the input, exactly when the input is neither an array nor a list nor
  a tuple; the error does not depend on the predictor, which is not consulted. The
  elements of a list or tuple are not inspected: whatever they are, the list goes to the
  transform, and no input-kind error is raised for it.
\<close>

theorem input_kind_error_iff:
  "SegmPredictor_call fc self x = Inl (Exception m) \<longleftrightarrow>
     (\<exists>n. x = PyOther n \<and> m = input_kind_message n)"
  by (cases x) (auto simp add: SegmPredictor_call_def run_images_not_Exception)

theorem input_kind_error_iff_witness:
  "SegmPredictor_call sample_findContours sample_predictor (PyOther ''dict'')
     = Inl (Exception (input_kind_message ''dict''))
   \<and> SegmPredictor_call sample_findContours sample_predictor (NdArray sample_image)
       \<noteq> Inl (Exception (input_kind_message ''numpy.ndarray''))"
  using input_kind_error_iff [of sample_findContours sample_predictor "PyOther ''dict''"
      "input_kind_message ''dict''"]
    input_kind_error_iff [of sample_findContours sample_predictor "NdArray sample_image"
      "input_kind_message ''numpy.ndarray''"]
  by simp

text \<open>
  Claim C9 as the specification words it fails on a list that holds something other than
  images: it is not a sequence of raw images, yet the entrypoint raises no input-kind
  error and hands the list to the transform; the error that comes back is the
  transform's own.
\<close>

theorem input_kind_list_counterexample:
  "\<not> spec_valid_input (PyList [PyOther ''str''])
   \<and> SegmPredictor_call sample_findContours sample_predictor (PyList [PyOther ''str''])
       = Inl (External ''not an image'')"
  by (simp add: spec_valid_input_def is_ndarray_def SegmPredictor_call_def run_images_def
      sample_predictor_def sample_transforms_def)

text \<open>
  Claim C4. When the network returns at least one output for a batch of one image, the
  call with the list \<open>[image]\<close> and the call with the bare image agree: if the bare
  call returns, it returns one bare record \<open>p\<close> and the list call returns the one-element
  sequence \<open>[p]\<close>; if the bare call raises, the list call raises the same error.
\<close>

theorem single_image_symmetry:
  assumes "transforms self [NdArray a] = Inr t" and "model self t = Inr preds" and "preds \<noteq> []"
  shows "case SegmPredictor_call fc self (NdArray a) of
           Inl e \<Rightarrow> SegmPredictor_call fc self (PyList [NdArray a]) = Inl e
         | Inr r \<Rightarrow> \<exists>p. r = One p \<and> SegmPredictor_call fc self (PyList [NdArray a]) = Inr (Many [p])"
proof -
  obtain pr rest where preds: "preds = pr # rest" using assms(3) by (cases preds) auto
  have z: "zip [NdArray a] preds = [(NdArray a, pr)]" by (simp add: preds)
  show ?thesis
  proof (cases "image_record fc self (NdArray a) pr")
    case (Inl e)
    then show ?thesis
      by (simp add: SegmPredictor_call_def run_images_def predict_def assms(1,2) z
          image_loop_step del: image_loop.simps(2))
  next
    case (Inr ip)
    then show ?thesis
      by (simp add: SegmPredictor_call_def run_images_def predict_def assms(1,2) z
          image_loop_step del: image_loop.simps(2))
  qed
qed

theorem single_image_symmetry_witness:
  "transforms sample_predictor [NdArray sample_image] = Inr [NdArray sample_image]
   \<and> model sample_predictor [NdArray sample_image] = Inr [[sample_prob]]
   \<and> [[sample_prob]] \<noteq> []
   \<and> SegmPredictor_call sample_findContours sample_predictor (NdArray sample_image)
       = Inr (One sample_record)
   \<and> SegmPredictor_call sample_findContours sample_predictor (PyList [NdArray sample_image])
       = Inr (Many [sample_record])"
proof -
  have ne: "[[sample_prob]] \<noteq> []" by simp
  show ?thesis
    using single_image_symmetry [OF sample_transforms_ok sample_model_ok ne, of sample_findContours]
      sample_transforms_ok sample_model_ok
    by (simp add: sample_call_one)
qed

subsection \<open>The assembler: order and channels\<close>

lemma enumerate_names_nth:
  "j < length ps \<Longrightarrow> enumerate 0 (map fst ps) ! j = (j, fst (ps ! j))"
  by (simp add: nth_enumerate_eq)

lemma class_records_class_name:
  "class_records fc self pred h w i n = Inr rs \<Longrightarrow> r \<in> set rs \<Longrightarrow> class_name r = n"
  by (auto simp add: class_records_def split: if_splits option.splits sum.splits prod.splits)

lemma image_record_Inr:
  assumes "image_record fc self img pred = Inr ip"
  shows "\<exists>rss. image_shape2 img = Inr (height (image_hw ip), width (image_hw ip))
           \<and> length rss = length (cls2params self)
           \<and> (\<forall>j < length rss.
                 class_records fc self pred (height (image_hw ip)) (width (image_hw ip)) j
                   (fst (cls2params self ! j)) = Inr (rss ! j))
           \<and> predictions ip = concat rss"
proof -
  from assms obtain h w ps where s: "image_shape2 img = Inr (h, w)"
    and l: "class_loop fc self pred h w (enumerate 0 (map fst (cls2params self))) [] = Inr ps"
    and ip: "ip = \<lparr>image_hw = \<lparr>height = h, width = w\<rparr>, predictions = ps\<rparr>"
    by (auto simp add: image_record_def split: sum.splits prod.splits)
  from l obtain rss where
    a: "list_all2 (\<lambda>c rs. class_records fc self pred h w (fst c) (snd c) = Inr rs)
          (enumerate 0 (map fst (cls2params self))) rss"
    and c: "ps = concat rss"
    by (auto simp add: class_loop_Inr)
  from a have len: "length rss = length (cls2params self)"
    by (auto dest: list_all2_lengthD)
  have "class_records fc self pred h w j (fst (cls2params self ! j)) = Inr (rss ! j)"
    if "j < length rss" for j
  proof -
    from that len have j: "j < length (cls2params self)" by simp
    then have "j < length (enumerate 0 (map fst (cls2params self)))" by simp
    from list_all2_nthD[OF a this] show ?thesis
      by (simp add: enumerate_names_nth[OF j])
  qed
  with s len c ip show ?thesis by auto
qed

lemma class_records_config:
  assumes "cls2params s' = cls2params s" and "config_height s' = config_height s"
    and "config_width s' = config_width s"
  shows "class_records fc s' pred h w i n = class_records fc s pred h w i n"
  unfolding class_records_def assms by (rule refl)

lemma class_loop_config:
  assumes "cls2params s' = cls2params s" and "config_height s' = config_height s"
    and "config_width s' = config_width s"
  shows "class_loop fc s' pred h w cs acc = class_loop fc s pred h w cs acc"
proof (induction cs arbitrary: acc)
  case Nil
  then show ?case by simp
next
  case (Cons c cs)
  obtain i n where c: "c = (i, n)" by (cases c)
  show ?case
    by (simp add: c class_loop_step class_records_config[OF assms] Cons.IH
        del: class_loop.simps split: sum.splits)
qed

lemma image_record_config:
  assumes "cls2params s' = cls2params s" and "config_height s' = config_height s"
    and "config_width s' = config_width s"
  shows "image_record fc s' img pred = image_record fc s img pred"
  by (simp add: image_record_def class_loop_config[OF assms] assms(1)
      split: sum.splits prod.splits)

lemma image_loop_config:
  assumes "cls2params s' = cls2params s" and "config_height s' = config_height s"
    and "config_width s' = config_width s"
  shows "image_loop fc s' zs acc = image_loop fc s zs acc"
proof (induction zs arbitrary: acc)
  case Nil
  then show ?case by simp
next
  case (Cons z zs)
  obtain img pred where z: "z = (img, pred)" by (cases z)
  show ?case
    by (simp add: z image_loop_step image_record_config[OF assms] Cons.IH
        del: image_loop.simps split: sum.splits)
qed

lemma sample_rescale_unit:
  "rescale_contours [square_contour] 4 4 4 4 = Inr [square_contour]"
  by code_simp

lemma empty_rescale_unit: "rescale_contours [] 4 4 4 4 = Inr []"
  by code_simp

lemma small_postprocess:
  "get_contours_from_predictions sample_findContours sample_prob sample_params 4 4 4 4
     = Inr ([[[1, 1], [1, 2], [2, 2], [2, 1]]], [(1, 1, 3, 3)])"
  by (simp add: get_contours_from_predictions_def sample_params_def sample_extract
      sample_rescale_unit square_contour_bbox)
    (simp add: reduce_contours_dims_def square_contour_def)

lemma zero_extract:
  "get_contours_from_mask sample_findContours (mask_preprocess zero_prob (1 / 2)) 1 = []"
  using zero_threshold by (simp add: get_contours_from_mask_def sample_findContours_def)

lemma zero_postprocess:
  "get_contours_from_predictions sample_findContours zero_prob sample_params 4 4 4 4
     = Inr ([], [])"
  by (simp add: get_contours_from_predictions_def sample_params_def zero_extract
      empty_rescale_unit reduce_contours_dims_def)

lemma order_enumerate:
  "enumerate 0 (map fst (cls2params order_predictor)) = [(0, ''zz''), (1, ''aa'')]"
  by (simp add: order_predictor_def)

lemma order_records_big_zz:
  "class_records sample_findContours order_predictor [sample_prob, sample_prob] 6 6 0 ''zz''
     = Inr [\<lparr>polygon = [[1, 1], [1, 3], [3, 3], [3, 1]], bbox = (1, 1, 4, 4),
             class_name = ''zz''\<rparr>]"
  by (simp add: class_records_def order_predictor_def sample_postprocess)

lemma order_records_big_aa:
  "class_records sample_findContours order_predictor [sample_prob, sample_prob] 6 6 (Suc 0) ''aa''
     = Inr [\<lparr>polygon = [[1, 1], [1, 3], [3, 3], [3, 1]], bbox = (1, 1, 4, 4),
             class_name = ''aa''\<rparr>]"
  by (simp add: class_records_def order_predictor_def sample_postprocess)

lemma order_records_small_zz:
  "class_records sample_findContours order_predictor [zero_prob, sample_prob] 4 4 0 ''zz''
     = Inr []"
  by (simp add: class_records_def order_predictor_def zero_postprocess)

lemma order_records_small_aa:
  "class_records sample_findContours order_predictor [zero_prob, sample_prob] 4 4 (Suc 0) ''aa''
     = Inr [\<lparr>polygon = [[1, 1], [1, 2], [2, 2], [2, 1]], bbox = (1, 1, 3, 3),
             class_name = ''aa''\<rparr>]"
  by (simp add: class_records_def order_predictor_def small_postprocess)

lemma small_shape: "image_shape2 (NdArray small_image) = Inr (4, 4)"
  by (simp add: image_shape2_def small_image_def)

lemma order_image_record_big:
  "image_record sample_findContours order_predictor (NdArray sample_image)
       [sample_prob, sample_prob] = Inr order_record_big"
  by (simp add: image_record_def sample_shape order_enumerate class_loop_step
      order_records_big_zz order_records_big_aa order_record_big_def
      del: class_loop.simps(2))

lemma order_image_record_small:
  "image_record sample_findContours order_predictor (NdArray small_image)
       [zero_prob, sample_prob] = Inr order_record_small"
  by (simp add: image_record_def small_shape order_enumerate class_loop_step
      order_records_small_zz order_records_small_aa order_record_small_def
      del: class_loop.simps(2))

lemma order_image_loop:
  "image_loop sample_findContours order_predictor
       (zip [NdArray sample_image, NdArray small_image]
            [[sample_prob, sample_prob], [zero_prob, sample_prob]]) []
     = Inr [order_record_big, order_record_small]"
  by (simp add: image_loop_step order_image_record_big order_image_record_small
      del: image_loop.simps(2))

text \<open>
  Claim C6. The assembler's result follows the input order: the \<open>k\<close>-th record belongs
  to the \<open>k\<close>-th image and carries that image's own height and width, and its
  predictions are the records of the configured classes concatenated in configuration
  order, class \<open>j\<close> read from channel \<open>j\<close> and every record of class \<open>j\<close> tagged with the
  \<open>j\<close>-th class name. The result is determined by the images, the probability batch and
  the configuration alone: a second run on the same images and batch, by any predictor
  with the same class table and prediction resolution, returns the same sequence,
  whatever its transform and its network are.
\<close>

theorem assembler_order_preserving:
  assumes "image_loop fc self (zip images preds) [] = Inr out"
  shows "length out = min (length images) (length preds)
         \<and> (\<forall>self' :: 't SegmPredictor.
               cls2params self' = cls2params self \<and> config_height self' = config_height self
               \<and> config_width self' = config_width self
               \<longrightarrow> image_loop fc self' (zip images preds) [] = Inr out)
         \<and> (\<forall>k < length out.
               image_shape2 (images ! k)
                 = Inr (height (image_hw (out ! k)), width (image_hw (out ! k)))
               \<and> (\<exists>rss. length rss = length (cls2params self)
                     \<and> (\<forall>j < length rss.
                           class_records fc self (preds ! k) (height (image_hw (out ! k)))
                             (width (image_hw (out ! k))) j (fst (cls2params self ! j))
                             = Inr (rss ! j)
                           \<and> (\<forall>r \<in> set (rss ! j). class_name r = fst (cls2params self ! j)))
                     \<and> predictions (out ! k) = concat rss))"
proof -
  from assms have a: "list_all2 (\<lambda>z ip. image_record fc self (fst z) (snd z) = Inr ip)
                        (zip images preds) out"
    by (simp add: image_loop_Inr)
  then have len: "length out = min (length images) (length preds)"
    by (auto dest: list_all2_lengthD)
  have det: "\<forall>self' :: 't SegmPredictor.
               cls2params self' = cls2params self \<and> config_height self' = config_height self
               \<and> config_width self' = config_width self
               \<longrightarrow> image_loop fc self' (zip images preds) [] = Inr out"
  proof (intro allI impI)
    fix self' :: "'t SegmPredictor"
    assume h: "cls2params self' = cls2params self \<and> config_height self' = config_height self
               \<and> config_width self' = config_width self"
    then have "image_loop fc self' (zip images preds) [] = image_loop fc self (zip images preds) []"
      by (intro image_loop_config) simp_all
    with assms show "image_loop fc self' (zip images preds) [] = Inr out" by simp
  qed
  have each: "image_shape2 (images ! k)
                = Inr (height (image_hw (out ! k)), width (image_hw (out ! k)))
              \<and> (\<exists>rss. length rss = length (cls2params self)
                    \<and> (\<forall>j < length rss.
                          class_records fc self (preds ! k) (height (image_hw (out ! k)))
                            (width (image_hw (out ! k))) j (fst (cls2params self ! j))
                            = Inr (rss ! j)
                          \<and> (\<forall>r \<in> set (rss ! j). class_name r = fst (cls2params self ! j)))
                    \<and> predictions (out ! k) = concat rss)"
    if k: "k < length out" for k
  proof -
    from k len have kz: "k < length (zip images preds)" by simp
    from list_all2_nthD[OF a kz] kz
    have "image_record fc self (images ! k) (preds ! k) = Inr (out ! k)" by simp
    from image_record_Inr[OF this] obtain rss where
      s: "image_shape2 (images ! k)
            = Inr (height (image_hw (out ! k)), width (image_hw (out ! k)))"
      and l: "length rss = length (cls2params self)"
      and r: "\<forall>j < length rss.
                class_records fc self (preds ! k) (height (image_hw (out ! k)))
                  (width (image_hw (out ! k))) j (fst (cls2params self ! j)) = Inr (rss ! j)"
      and c: "predictions (out ! k) = concat rss"
      by blast
    from r have "\<forall>j < length rss.
                   class_records fc self (preds ! k) (height (image_hw (out ! k)))
                     (width (image_hw (out ! k))) j (fst (cls2params self ! j)) = Inr (rss ! j)
                   \<and> (\<forall>r \<in> set (rss ! j). class_name r = fst (cls2params self ! j))"
      by (auto dest: class_records_class_name)
    with s l c show ?thesis by blast
  qed
  from len det each show ?thesis by blast
qed

theorem assembler_order_preserving_witness:
  "image_loop sample_findContours order_predictor
       (zip [NdArray sample_image, NdArray small_image]
            [[sample_prob, sample_prob], [zero_prob, sample_prob]]) []
     = Inr [order_record_big, order_record_small]
   \<and> length [order_record_big, order_record_small]
       = min (length [NdArray sample_image, NdArray small_image])
           (length [[sample_prob, sample_prob], [zero_prob, sample_prob]])
   \<and> image_shape2 ([NdArray sample_image, NdArray small_image] ! 1)
       = Inr (height (image_hw ([order_record_big, order_record_small] ! 1)),
              width (image_hw ([order_record_big, order_record_small] ! 1)))
   \<and> image_loop sample_findContours (order_predictor\<lparr>transforms := offline_transforms\<rparr>)
         (zip [NdArray sample_image, NdArray small_image]
              [[sample_prob, sample_prob], [zero_prob, sample_prob]]) []
       = Inr [order_record_big, order_record_small]"
proof -
  note t = assembler_order_preserving [OF order_image_loop]
  note a = t [THEN conjunct1]
  have c: "image_loop sample_findContours
               (order_predictor\<lparr>transforms := offline_transforms\<rparr>)
               (zip [NdArray sample_image, NdArray small_image]
                    [[sample_prob, sample_prob], [zero_prob, sample_prob]]) []
             = Inr [order_record_big, order_record_small]"
    by (rule t [THEN conjunct2, THEN conjunct1, rule_format]) simp
  have k: "(1::nat) < length [order_record_big, order_record_small]" by simp
  note b = t [THEN conjunct2, THEN conjunct2, rule_format, OF k, THEN conjunct1]
  from order_image_loop a b c show ?thesis by (intro conjI)
qed

lemma class_records_take:
  "i < n \<Longrightarrow> class_records fc self (take n pred) h w i nm = class_records fc self pred h w i nm"
proof -
  assume i: "i < n"
  then have a: "(min (length pred) n \<le> i) = (length pred \<le> i)" by auto
  show ?thesis
    using i by (cases "length pred \<le> i")
      (simp_all add: class_records_def a split: option.splits sum.splits)
qed

lemma class_loop_take:
  "\<forall>c \<in> set cs. fst c < n \<Longrightarrow>
     class_loop fc self (take n pred) h w cs acc = class_loop fc self pred h w cs acc"
proof (induction cs arbitrary: acc)
  case Nil
  then show ?case by simp
next
  case (Cons c cs)
  obtain i nm where c: "c = (i, nm)" by (cases c)
  from Cons.prems c have i: "i < n" and rest: "\<forall>c \<in> set cs. fst c < n" by auto
  show ?case
    by (simp add: c class_loop_step class_records_take[OF i] Cons.IH[OF rest]
        del: class_loop.simps split: sum.splits)
qed

lemma image_record_take:
  "image_record fc self img (take (length (cls2params self)) pred) = image_record fc self img pred"
proof -
  have "\<forall>c \<in> set (enumerate 0 (map fst (cls2params self))). fst c < length (cls2params self)"
    by (auto simp add: in_set_enumerate_eq)
  then have cl: "class_loop fc self (take (length (cls2params self)) pred) h w
                   (enumerate 0 (map fst (cls2params self))) []
                 = class_loop fc self pred h w (enumerate 0 (map fst (cls2params self))) []"
    for h w
    by (rule class_loop_take)
  show ?thesis
    by (simp add: image_record_def cl split: sum.splits prod.splits)
qed

lemma image_loop_take:
  "image_loop fc self (map (\<lambda>z. (fst z, take (length (cls2params self)) (snd z))) zs) acc
     = image_loop fc self zs acc"
proof (induction zs arbitrary: acc)
  case Nil
  then show ?case by simp
next
  case (Cons z zs)
  obtain img pred where z: "z = (img, pred)" by (cases z)
  show ?case
    by (simp add: z image_loop_step image_record_take Cons.IH del: image_loop.simps
        split: sum.splits)
qed

text \<open>
  Claim C5, as the code has it. The assembler has no check of the channel count. When
  the output for a processed image has fewer channels than there are configured classes,
  the assembler fails: reading the first missing channel raises. When it has more, the
  channels beyond the configured classes are never read: the result is the one the
  assembler gives on the batch cut down to the configured number of channels, and no
  error is raised for the extra channels.
\<close>

theorem assembler_channel_mismatch:
  "((img, pred) \<in> set (zip images preds) \<and> length pred < length (cls2params self)
      \<longrightarrow> (\<exists>e. image_loop fc self (zip images preds) [] = Inl e))
   \<and> image_loop fc self (zip images (map (take (length (cls2params self))) preds)) []
       = image_loop fc self (zip images preds) []"
proof -
  have fewer: "\<exists>e. image_loop fc self (zip images preds) [] = Inl e"
    if m: "(img, pred) \<in> set (zip images preds)" and l: "length pred < length (cls2params self)"
  proof -
    define cs where "cs = enumerate 0 (map fst (cls2params self))"
    have mem: "(length pred, fst (cls2params self ! length pred)) \<in> set cs"
      using l by (auto simp add: cs_def in_set_enumerate_eq)
    have rec: "class_records fc self pred h w (length pred) nm = Inl IndexError" for h w nm
      by (simp add: class_records_def)
    have "\<exists>e. class_loop fc self pred h w cs [] = Inl e" for h w
      using class_loop_Inl[of fc self pred h w "(length pred, fst (cls2params self ! length pred))"
          IndexError cs "[]"] rec mem
      by simp
    then have cl: "\<exists>e. class_loop fc self pred h w
                        (enumerate 0 (map fst (cls2params self))) [] = Inl e" for h w
      by (simp add: cs_def)
    have "\<exists>e. image_record fc self img pred = Inl e"
    proof (cases "image_shape2 img")
      case (Inl e)
      then show ?thesis by (simp add: image_record_def)
    next
      case (Inr hw)
      obtain h w where hw: "hw = (h, w)" by (cases hw)
      from cl[of h w] obtain e where
        "class_loop fc self pred h w (enumerate 0 (map fst (cls2params self))) [] = Inl e" ..
      then show ?thesis by (simp add: image_record_def Inr hw)
    qed
    then obtain e where "image_record fc self (fst (img, pred)) (snd (img, pred)) = Inl e"
      by auto
    from image_loop_Inl[OF this m] show ?thesis .
  qed
  have z: "zip images (map (take (length (cls2params self))) preds)
             = map (\<lambda>z. (fst z, take (length (cls2params self)) (snd z))) (zip images preds)"
    by (simp add: zip_map2 case_prod_beta)
  have more: "image_loop fc self (zip images (map (take (length (cls2params self))) preds)) []
                = image_loop fc self (zip images preds) []"
    by (simp only: z image_loop_take)
  from fewer more show ?thesis by blast
qed

theorem assembler_channel_mismatch_witness:
  "(NdArray sample_image, []) \<in> set (zip [NdArray sample_image] [[]])
   \<and> length ([] :: prob_map list) < length (cls2params sample_predictor)
   \<and> image_loop sample_findContours sample_predictor (zip [NdArray sample_image] [[]]) []
       = Inl IndexError"
proof -
  have m: "(NdArray sample_image, []) \<in> set (zip [NdArray sample_image] [[]])" by simp
  have l: "length ([] :: prob_map list) < length (cls2params sample_predictor)"
    by (simp add: sample_predictor_def)
  have v: "image_loop sample_findContours sample_predictor (zip [NdArray sample_image] [[]]) []
             = Inl IndexError"
    by (simp add: sample_shape sample_predictor_def)
  from assembler_channel_mismatch [of "NdArray sample_image" "[]" "[NdArray sample_image]"
      "[[]]" sample_predictor sample_findContours] m l
  have "\<exists>e. image_loop sample_findContours sample_predictor (zip [NdArray sample_image] [[]]) []
              = Inl e"
    by blast
  with m l v show ?thesis by blast
qed

text \<open>
  Claim C5 as the specification words it fails when the network returns more channels
  than there are configured classes: with one class configured and two channels returned,
  the assembler raises nothing and returns the predictions of the first channel alone.
\<close>

theorem assembler_extra_channel_counterexample:
  "length [sample_prob, sample_prob] \<noteq> length (cls2params sample_predictor)
   \<and> image_loop sample_findContours sample_predictor
         (zip [NdArray sample_image] [[sample_prob, sample_prob]]) []
       = Inr [sample_record]"
proof -
  have n: "length (cls2params sample_predictor) = 1" by (simp add: sample_predictor_def)
  show ?thesis
    using sample_image_loop [of "[sample_prob]"] by (simp add: n del: image_loop.simps)
qed

end
